theory Spec2Isabelle
  imports Complex_Main "HOL-Library.Char_ord" "HOL-Library.List_Lexorder" "HOL-Library.Multiset"
    "HOL-Library.Sublist"
begin

section \<open>The expense store of ExpenseTracker\<close>

text \<open>
  The class \<^verbatim>\<open>DatabaseService\<close> keeps one field, the database handle \<^verbatim>\<open>db\<close>, and
  runs one SQL statement per engine call. The model below has three layers:
  \<^item> the persisted file: the table \<^verbatim>\<open>expenses\<close>, the table \<^verbatim>\<open>expenses_backup\<close> and the
    row of \<^verbatim>\<open>sqlite_sequence\<close> that \<^verbatim>\<open>AUTOINCREMENT\<close> maintains;
  \<^item> the SQL statements of the source, each a function on the file that returns an
    error or a result and the new file;
  \<^item> the methods of the class, which thread the service state through the engine calls
    in the order of the source and turn every \<^verbatim>\<open>throw\<close> into an \<open>Inl\<close>.

  Amounts are JavaScript numbers stored in a \<^verbatim>\<open>REAL\<close> column. The methods keep their type
  abstract (\<open>'m\<close>): where the source adds or compares amounts, they ask for an addition, a
  zero and an order on \<open>'m\<close> and assume no law about them; the type \<open>binary64\<close> below gives
  them the rounding addition of doubles. A text is the list of its bytes in UTF-8, the
  encoding the engine stores and compares (the \<^verbatim>\<open>BINARY\<close> collation is the order of the
  bytes). The 63-bit ceiling of row ids is not modelled.
\<close>

subsection \<open>Data model\<close>

text \<open>\<^verbatim>\<open>Omit<Expense, 'id' | 'created_at'>\<close>: the argument of \<^verbatim>\<open>addExpense\<close> and
  \<^verbatim>\<open>updateExpense\<close>. An absent \<^verbatim>\<open>description\<close> is \<open>None\<close>.\<close>

record 'm expense_input =
  title :: string
  amount :: 'm
  category :: string
  date :: string
  description :: "string option"

text \<open>\<^verbatim>\<open>Expense\<close> as a row of the table and as a query result: the input's fields, the
  primary key (the column \<^verbatim>\<open>id\<close>) and \<^verbatim>\<open>created_at\<close>. \<open>None\<close> is SQL \<^verbatim>\<open>NULL\<close>.\<close>

record 'm expense = "'m expense_input" +
  rowid :: int
  created_at :: "string option"

record 'm ExpenseStats =
  totalExpenses :: 'm
  categorySums :: "string \<rightharpoonup> 'm"
  monthlyData :: "(string option \<times> 'm) list"

text \<open>The declaration of the column \<^verbatim>\<open>created_at\<close> in the table at hand: missing (a table
  from before the column was introduced), added by \<^verbatim>\<open>ALTER TABLE\<close> with no default, or
  declared by \<^verbatim>\<open>CREATE TABLE\<close> with \<^verbatim>\<open>DEFAULT (datetime('now'))\<close>.\<close>

datatype created_at_column = Missing | No_default | Default_now

record 'm table =
  created_at_col :: created_at_column
  rows :: "'m expense list"

record 'm database =
  expenses :: "'m table option"
  expenses_backup :: "'m expense list option"
  sqlite_sequence :: "int option"

datatype error =
    Database_not_initialized
  | Engine_failure
  | No_such_table
  | Table_exists
  | No_such_column
  | Duplicate_column
  | Constraint_failed
  | Pattern_too_complex

text \<open>The state a method runs in: the handle (\<open>db\<close> holds when \<^verbatim>\<open>this.db\<close> is not null),
  the persisted file, the outcome of the coming engine calls (\<open>True\<close>: the call is
  rejected by the storage engine; the empty list: no call is), the readings of the two
  clocks (\<^verbatim>\<open>datetime('now')\<close> and \<^verbatim>\<open>new Date().toISOString()\<close>) and what was written to the
  console.\<close>

record 'm service =
  db :: bool
  disk :: "'m database"
  faults :: "bool list"
  now :: string
  js_now :: string
  console :: "string list"

type_synonym ('m, 'a) outcome = "(error + 'a) \<times> 'm service"

type_synonym ('m, 'a) statement = "'m database \<Rightarrow> error + ('a \<times> 'm database)"

subsection \<open>Ordering and pattern matching of the engine\<close>

text \<open>\<^verbatim>\<open>ORDER BY\<close>: insertion into a sorted list, rows that compare equal stay in table
  order.\<close>

fun insert_by :: "('a \<Rightarrow> 'a \<Rightarrow> bool) \<Rightarrow> 'a \<Rightarrow> 'a list \<Rightarrow> 'a list" where
  "insert_by le x [] = [x]"
| "insert_by le x (y # ys) = (if le x y then x # y # ys else y # insert_by le x ys)"

definition order_by :: "('a \<Rightarrow> 'a \<Rightarrow> bool) \<Rightarrow> 'a list \<Rightarrow> 'a list" where
  "order_by le xs = foldr (insert_by le) xs []"

text \<open>\<^verbatim>\<open>ORDER BY date DESC, id DESC\<close> and \<^verbatim>\<open>ORDER BY date DESC\<close>: \<open>a\<close> is listed no later
  than \<open>b\<close>.\<close>

definition date_desc_id_desc :: "'m expense \<Rightarrow> 'm expense \<Rightarrow> bool" where
  "date_desc_id_desc a b \<longleftrightarrow> date b < date a \<or> (date a = date b \<and> rowid b \<le> rowid a)"

definition date_desc :: "'m expense \<Rightarrow> 'm expense \<Rightarrow> bool" where
  "date_desc a b \<longleftrightarrow> date b \<le> date a"

text \<open>\<^verbatim>\<open>LIKE\<close> folds the 26 ASCII letters only.\<close>

definition ascii_lower :: "char \<Rightarrow> char" where
  "ascii_lower c =
     (if CHR ''A'' \<le> c \<and> c \<le> CHR ''Z'' then char_of (of_char c + (32::nat)) else c)"

text \<open>The engine reads a text one character at a time: a byte from \<open>0xC0\<close> on takes the
  continuation bytes (\<open>0x80\<close> to \<open>0xBF\<close>) that follow it, any other byte stands alone.\<close>

definition continuation :: "char \<Rightarrow> bool" where
  "continuation c \<longleftrightarrow> CHR 0x80 \<le> c \<and> c \<le> CHR 0xBF"

function utf8_chars :: "string \<Rightarrow> string list" where
  "utf8_chars [] = []"
| "utf8_chars (c # cs) =
     (if CHR 0xC0 \<le> c
      then (c # takeWhile continuation cs) # utf8_chars (dropWhile continuation cs)
      else [c] # utf8_chars cs)"
  by pat_completeness auto
termination
  by (relation "measure length") (auto simp: length_dropWhile_le less_Suc_eq_le)

text \<open>Two characters are the same to \<^verbatim>\<open>LIKE\<close> when they are equal, or when both are ASCII
  and equal up to case.\<close>

definition same_char :: "string \<Rightarrow> string \<Rightarrow> bool" where
  "same_char p c \<longleftrightarrow>
     p = c
     \<or> (case (p, c) of
          ([a], [b]) \<Rightarrow> a < CHR 0x80 \<and> b < CHR 0x80 \<and> ascii_lower a = ascii_lower b
        | _ \<Rightarrow> False)"

text \<open>\<open>like p t\<close>: the text \<open>t\<close> matches the pattern \<open>p\<close>. \<^verbatim>\<open>%\<close> stands for any run of
  characters, \<^verbatim>\<open>_\<close> for any one character, every other character for itself up to ASCII
  case. The source passes no \<^verbatim>\<open>ESCAPE\<close> character.\<close>

fun like_chars :: "string list \<Rightarrow> string list \<Rightarrow> bool" where
  "like_chars [] t = (t = [])"
| "like_chars (p # ps) [] = (p = ''%'' \<and> like_chars ps [])"
| "like_chars (p # ps) (c # cs) =
     (if p = ''%'' then like_chars ps (c # cs) \<or> like_chars (p # ps) cs
      else (p = ''_'' \<or> same_char p c) \<and> like_chars ps cs)"

definition like :: "string \<Rightarrow> string \<Rightarrow> bool" where
  "like p t = like_chars (utf8_chars p) (utf8_chars t)"

text \<open>\<^verbatim>\<open>x LIKE ?\<close> on a nullable column: \<^verbatim>\<open>NULL LIKE ?\<close> is \<^verbatim>\<open>NULL\<close>, which selects nothing.\<close>

definition like_null :: "string \<Rightarrow> string option \<Rightarrow> bool" where
  "like_null p v = (case v of None \<Rightarrow> False | Some t \<Rightarrow> like p t)"

subsection \<open>The SQL statements of the source\<close>

text \<open>The table that every \<^verbatim>\<open>CREATE TABLE expenses\<close> of the source declares.\<close>

definition new_table :: "'m table" where
  "new_table = \<lparr>created_at_col = Default_now, rows = []\<rparr>"

text \<open>\<^verbatim>\<open>CREATE TABLE IF NOT EXISTS expenses (...)\<close>\<close>

definition create_table_if_not_exists :: "('m, unit) statement" where
  "create_table_if_not_exists d =
     (case expenses d of
        None \<Rightarrow> Inr ((), d\<lparr>expenses := Some new_table\<rparr>)
      | Some t \<Rightarrow> Inr ((), d))"

text \<open>\<^verbatim>\<open>CREATE TABLE expenses (...)\<close>\<close>

definition create_table :: "('m, unit) statement" where
  "create_table d =
     (case expenses d of
        None \<Rightarrow> Inr ((), d\<lparr>expenses := Some new_table\<rparr>)
      | Some t \<Rightarrow> Inl Table_exists)"

text \<open>\<^verbatim>\<open>DROP TABLE IF EXISTS expenses\<close> and \<^verbatim>\<open>DROP TABLE expenses\<close>. Dropping a table
  declared \<^verbatim>\<open>AUTOINCREMENT\<close> deletes its row of \<^verbatim>\<open>sqlite_sequence\<close>.\<close>

definition drop_table_if_exists :: "('m, unit) statement" where
  "drop_table_if_exists d = Inr ((), d\<lparr>expenses := None, sqlite_sequence := None\<rparr>)"

definition drop_table :: "('m, unit) statement" where
  "drop_table d =
     (case expenses d of
        None \<Rightarrow> Inl No_such_table
      | Some t \<Rightarrow> Inr ((), d\<lparr>expenses := None, sqlite_sequence := None\<rparr>))"

text \<open>\<^verbatim>\<open>DROP TABLE IF EXISTS expenses_backup\<close> and
  \<^verbatim>\<open>CREATE TABLE expenses_backup AS SELECT * FROM expenses\<close>\<close>

definition drop_backup_if_exists :: "('m, unit) statement" where
  "drop_backup_if_exists d = Inr ((), d\<lparr>expenses_backup := None\<rparr>)"

definition create_backup :: "('m, unit) statement" where
  "create_backup d =
     (case expenses d of
        None \<Rightarrow> Inl No_such_table
      | Some t \<Rightarrow>
          (case expenses_backup d of
             None \<Rightarrow> Inr ((), d\<lparr>expenses_backup := Some (rows t)\<rparr>)
           | Some b \<Rightarrow> Inl Table_exists))"

text \<open>\<^verbatim>\<open>PRAGMA table_info(expenses)\<close>: the column names; no row for a table that does not
  exist.\<close>

definition table_info :: "('m, string list) statement" where
  "table_info d =
     Inr ((case expenses d of
             None \<Rightarrow> []
           | Some t \<Rightarrow>
               [''id'', ''title'', ''amount'', ''category'', ''date'', ''description'']
               @ (if created_at_col t = Missing then [] else [''created_at''])), d)"

text \<open>\<^verbatim>\<open>ALTER TABLE expenses ADD COLUMN created_at DATETIME\<close>: the new column is
  \<^verbatim>\<open>NULL\<close> in every row and has no default.\<close>

definition alter_add_created_at :: "('m, unit) statement" where
  "alter_add_created_at d =
     (case expenses d of
        None \<Rightarrow> Inl No_such_table
      | Some t \<Rightarrow>
          if created_at_col t = Missing
          then Inr ((), d\<lparr>expenses := Some (t\<lparr>created_at_col := No_default,
                                rows := map (\<lambda>r. r\<lparr>created_at := None\<rparr>) (rows t)\<rparr>)\<rparr>)
          else Inl Duplicate_column)"

text \<open>\<^verbatim>\<open>UPDATE expenses SET created_at = datetime('now') WHERE created_at IS NULL\<close>\<close>

definition backfill_created_at :: "string \<Rightarrow> ('m, unit) statement" where
  "backfill_created_at ts d =
     (case expenses d of
        None \<Rightarrow> Inl No_such_table
      | Some t \<Rightarrow>
          if created_at_col t = Missing then Inl No_such_column
          else Inr ((), d\<lparr>expenses := Some (t\<lparr>rows :=
                 map (\<lambda>r. if created_at r = None then r\<lparr>created_at := Some ts\<rparr> else r)
                   (rows t)\<rparr>)\<rparr>))"

text \<open>\<^verbatim>\<open>AUTOINCREMENT\<close>: the new key is one more than the largest key the table holds or
  has ever held (the latter is what \<^verbatim>\<open>sqlite_sequence\<close> records).\<close>

definition sequence_value :: "'m database \<Rightarrow> int" where
  "sequence_value d = (case sqlite_sequence d of None \<Rightarrow> 0 | Some n \<Rightarrow> n)"

definition next_rowid :: "'m database \<Rightarrow> 'm table \<Rightarrow> int" where
  "next_rowid d t = fold max (map rowid (rows t)) (sequence_value d) + 1"

text \<open>\<^verbatim>\<open>INSERT INTO expenses (title, amount, category, date, description) VALUES (?, ?, ?, ?, ?)\<close>;
  the result is \<^verbatim>\<open>lastInsertRowId\<close>. \<open>ts\<close> is the reading of \<^verbatim>\<open>datetime('now')\<close>.\<close>

definition insert_expense :: "string \<Rightarrow> 'm expense_input \<Rightarrow> ('m, int) statement" where
  "insert_expense ts e d =
     (case expenses d of
        None \<Rightarrow> Inl No_such_table
      | Some t \<Rightarrow>
          let i = next_rowid d t;
              r = \<lparr>title = title e, amount = amount e, category = category e, date = date e,
                   description = description e, rowid = i,
                   created_at = (if created_at_col t = Default_now then Some ts else None)\<rparr>
          in Inr (i, d\<lparr>expenses := Some (t\<lparr>rows := rows t @ [r]\<rparr>),
                       sqlite_sequence := Some i\<rparr>))"

text \<open>\<^verbatim>\<open>INSERT INTO expenses (id, title, amount, category, date, description, created_at)
  VALUES (?, ?, ?, ?, ?, ?, ?)\<close>\<close>

definition restore_expense :: "'m expense \<Rightarrow> ('m, unit) statement" where
  "restore_expense r d =
     (case expenses d of
        None \<Rightarrow> Inl No_such_table
      | Some t \<Rightarrow>
          if created_at_col t = Missing then Inl No_such_column
          else if rowid r \<in> set (map rowid (rows t)) then Inl Constraint_failed
          else Inr ((), d\<lparr>expenses := Some (t\<lparr>rows := rows t @ [r]\<rparr>),
                          sqlite_sequence := Some (max (rowid r) (sequence_value d))\<rparr>))"

text \<open>\<^verbatim>\<open>SELECT * FROM expenses\<close>, \<^verbatim>\<open>SELECT * FROM expenses ORDER BY date DESC, id DESC\<close>
  and \<^verbatim>\<open>SELECT * FROM expenses WHERE id = ?\<close> (read with \<^verbatim>\<open>getFirstAsync\<close>: the first
  row or null).\<close>

definition select_all :: "('m, 'm expense list) statement" where
  "select_all d =
     (case expenses d of None \<Rightarrow> Inl No_such_table | Some t \<Rightarrow> Inr (rows t, d))"

definition select_all_ordered :: "('m, 'm expense list) statement" where
  "select_all_ordered d =
     (case expenses d of
        None \<Rightarrow> Inl No_such_table
      | Some t \<Rightarrow> Inr (order_by date_desc_id_desc (rows t), d))"

definition select_by_id :: "int \<Rightarrow> ('m, 'm expense option) statement" where
  "select_by_id i d =
     (case expenses d of
        None \<Rightarrow> Inl No_such_table
      | Some t \<Rightarrow> Inr (find (\<lambda>r. rowid r = i) (rows t), d))"

text \<open>\<^verbatim>\<open>UPDATE expenses SET title = ?, amount = ?, category = ?, date = ?, description = ?
  WHERE id = ?\<close>\<close>

definition update_by_id :: "int \<Rightarrow> 'm expense_input \<Rightarrow> ('m, unit) statement" where
  "update_by_id i e d =
     (case expenses d of
        None \<Rightarrow> Inl No_such_table
      | Some t \<Rightarrow>
          Inr ((), d\<lparr>expenses := Some (t\<lparr>rows :=
                 map (\<lambda>r. if rowid r = i
                          then r\<lparr>title := title e, amount := amount e, category := category e,
                                 date := date e, description := description e\<rparr>
                          else r) (rows t)\<rparr>)\<rparr>))"

text \<open>\<^verbatim>\<open>DELETE FROM expenses WHERE id = ?\<close> and \<^verbatim>\<open>DELETE FROM expenses\<close>; neither touches
  \<^verbatim>\<open>sqlite_sequence\<close>.\<close>

definition delete_by_id :: "int \<Rightarrow> ('m, unit) statement" where
  "delete_by_id i d =
     (case expenses d of
        None \<Rightarrow> Inl No_such_table
      | Some t \<Rightarrow> Inr ((), d\<lparr>expenses := Some (t\<lparr>rows := filter (\<lambda>r. rowid r \<noteq> i) (rows t)\<rparr>)\<rparr>))"

definition delete_all :: "('m, unit) statement" where
  "delete_all d =
     (case expenses d of
        None \<Rightarrow> Inl No_such_table
      | Some t \<Rightarrow> Inr ((), d\<lparr>expenses := Some (t\<lparr>rows := []\<rparr>)\<rparr>))"

text \<open>\<^verbatim>\<open>SELECT * FROM expenses WHERE title LIKE ? OR description LIKE ? OR category LIKE ?
  ORDER BY date DESC\<close>, the three parameters bound to the same pattern. \<^verbatim>\<open>LIKE\<close> refuses a
  pattern of more than 50000 bytes ("LIKE or GLOB pattern too complex") when it is
  evaluated, that is on the first row.\<close>

definition like_any :: "string \<Rightarrow> 'm expense \<Rightarrow> bool" where
  "like_any p r \<longleftrightarrow> like p (title r) \<or> like_null p (description r) \<or> like p (category r)"

definition select_like :: "string \<Rightarrow> ('m, 'm expense list) statement" where
  "select_like p d =
     (case expenses d of
        None \<Rightarrow> Inl No_such_table
      | Some t \<Rightarrow>
          if rows t \<noteq> [] \<and> 50000 < length p then Inl Pattern_too_complex
          else Inr (order_by date_desc (filter (like_any p) (rows t)), d))"

text \<open>\<^verbatim>\<open>SELECT * FROM expenses WHERE date BETWEEN ? AND ? ORDER BY date DESC\<close>\<close>

definition select_date_range :: "string \<Rightarrow> string \<Rightarrow> ('m, 'm expense list) statement" where
  "select_date_range a b d =
     (case expenses d of
        None \<Rightarrow> Inl No_such_table
      | Some t \<Rightarrow>
          Inr (order_by date_desc (filter (\<lambda>r. a \<le> date r \<and> date r \<le> b) (rows t)), d))"

text \<open>The aggregates. \<^verbatim>\<open>SUM\<close> adds the amounts in table order and is \<^verbatim>\<open>NULL\<close> over no
  row; \<^verbatim>\<open>GROUP BY\<close> keeps one running sum per key.\<close>

fun add_to_group :: "'k \<Rightarrow> 'm::plus \<Rightarrow> ('k \<times> 'm) list \<Rightarrow> ('k \<times> 'm) list" where
  "add_to_group k v [] = [(k, v)]"
| "add_to_group k v ((k', t) # gs) =
     (if k' = k then (k', t + v) # gs else (k', t) # add_to_group k v gs)"

definition group_sums :: "('r \<Rightarrow> 'k) \<Rightarrow> ('r \<Rightarrow> 'm::plus) \<Rightarrow> 'r list \<Rightarrow> ('k \<times> 'm) list" where
  "group_sums key val rs = foldl (\<lambda>gs r. add_to_group (key r) (val r) gs) [] rs"

text \<open>\<^verbatim>\<open>SELECT SUM(amount) as total FROM expenses\<close>\<close>

definition select_sum :: "('m::plus, 'm option) statement" where
  "select_sum d =
     (case expenses d of
        None \<Rightarrow> Inl No_such_table
      | Some t \<Rightarrow>
          Inr ((case rows t of [] \<Rightarrow> None
                | r # rs \<Rightarrow> Some (foldl (+) (amount r) (map amount rs))), d))"

text \<open>\<^verbatim>\<open>SELECT category, SUM(amount) as total FROM expenses GROUP BY category
  ORDER BY total DESC\<close>\<close>

definition select_sum_by_category :: "('m::{plus,ord}, (string \<times> 'm) list) statement" where
  "select_sum_by_category d =
     (case expenses d of
        None \<Rightarrow> Inl No_such_table
      | Some t \<Rightarrow>
          Inr (order_by (\<lambda>a b. snd b \<le> snd a) (group_sums category amount (rows t)), d))"

text \<open>\<^verbatim>\<open>SELECT strftime('%Y-%m', date) as month, SUM(amount) as total FROM expenses
  GROUP BY strftime('%Y-%m', date) ORDER BY month DESC LIMIT 12\<close>. The date function of the
  engine is a parameter; it is \<^verbatim>\<open>NULL\<close> on a text that is no date, and \<^verbatim>\<open>NULL\<close> sorts
  last in descending order.\<close>

definition month_desc :: "string option \<times> 'm \<Rightarrow> string option \<times> 'm \<Rightarrow> bool" where
  "month_desc a b =
     (case fst b of None \<Rightarrow> True
      | Some y \<Rightarrow> (case fst a of None \<Rightarrow> False | Some x \<Rightarrow> y \<le> x))"

definition select_sum_by_month ::
    "(string \<Rightarrow> string option) \<Rightarrow> ('m::plus, (string option \<times> 'm) list) statement" where
  "select_sum_by_month strftime_ym d =
     (case expenses d of
        None \<Rightarrow> Inl No_such_table
      | Some t \<Rightarrow>
          Inr (take 12 (order_by month_desc
                 (group_sums (\<lambda>r. strftime_ym (date r)) amount (rows t))), d))"

subsection \<open>Engine calls, exceptions and the console\<close>

text \<open>One call of \<^verbatim>\<open>execAsync\<close>, \<^verbatim>\<open>runAsync\<close>, \<^verbatim>\<open>getAllAsync\<close> or \<^verbatim>\<open>getFirstAsync\<close>: the
  engine rejects the call when the next entry of \<open>faults\<close> says so, and runs the statement
  otherwise. A statement that fails changes nothing on disk.\<close>

definition engine_call :: "('m, 'a) statement \<Rightarrow> 'm service \<Rightarrow> ('m, 'a) outcome" where
  "engine_call stmt s =
     (case faults s of
        True # fs \<Rightarrow> (Inl Engine_failure, s\<lparr>faults := fs\<rparr>)
      | _ \<Rightarrow>
          (case stmt (disk s) of
             Inl e \<Rightarrow> (Inl e, s\<lparr>faults := tl (faults s)\<rparr>)
           | Inr (v, d) \<Rightarrow> (Inr v, s\<lparr>faults := tl (faults s), disk := d\<rparr>)))"

text \<open>\<^verbatim>\<open>await\<close> in sequence: the rest runs on the result unless an exception was thrown.\<close>

definition and_then ::
    "('m, 'a) outcome \<Rightarrow> ('a \<Rightarrow> 'm service \<Rightarrow> ('m, 'b) outcome) \<Rightarrow> ('m, 'b) outcome" where
  "and_then r k = (case r of (Inl e, s) \<Rightarrow> (Inl e, s) | (Inr v, s) \<Rightarrow> k v s)"

definition log :: "string \<Rightarrow> 'm service \<Rightarrow> 'm service" where
  "log msg s = s\<lparr>console := console s @ [msg]\<rparr>"

text \<open>\<^verbatim>\<open>catch (error) { console.error(msg, error); throw error; }\<close>\<close>

definition rethrow :: "string \<Rightarrow> ('m, 'a) outcome \<Rightarrow> ('m, 'a) outcome" where
  "rethrow msg r = (case r of (Inl e, s) \<Rightarrow> (Inl e, log msg s) | (Inr v, s) \<Rightarrow> (Inr v, s))"

text \<open>\<^verbatim>\<open>value || fallback\<close> on a text that may be null or undefined: the empty text is
  falsy too.\<close>

definition or_else :: "string option \<Rightarrow> string \<Rightarrow> string" where
  "or_else v fallback =
     (case v of None \<Rightarrow> fallback | Some t \<Rightarrow> if t = [] then fallback else t)"

subsection \<open>The methods of DatabaseService\<close>

text \<open>\<^verbatim>\<open>SQLite.openDatabaseAsync('expenses.db')\<close> opens the file, creating it when there is
  none.\<close>

definition openDatabaseAsync :: "'m service \<Rightarrow> ('m, unit) outcome" where
  "openDatabaseAsync s = engine_call (\<lambda>d. Inr ((), d)) s"

text \<open>The loop of \<^verbatim>\<open>recreateTableWithCreatedAt\<close> over the rows read before the table was
  dropped.\<close>

fun restore_all :: "'m expense list \<Rightarrow> 'm service \<Rightarrow> ('m, unit) outcome" where
  "restore_all [] s = (Inr (), s)"
| "restore_all (expense # rest) s =
     and_then
       (engine_call
          (restore_expense
             (expense\<lparr>description := Some (or_else (description expense) []),
                      created_at := Some (or_else (created_at expense) (js_now s))\<rparr>)) s)
       (\<lambda>_. restore_all rest)"

definition recreateTableWithCreatedAt :: "'m service \<Rightarrow> ('m, unit) outcome" where
  "recreateTableWithCreatedAt s =
     (if \<not> db s then (Inr (), s)
      else
        and_then (engine_call select_all s) (\<lambda>existingData s.
        and_then (engine_call drop_backup_if_exists s) (\<lambda>_ s.
        and_then (engine_call create_backup s) (\<lambda>_ s.
        and_then (engine_call drop_table s) (\<lambda>_ s.
        and_then (engine_call create_table s) (\<lambda>_ s.
        and_then (restore_all existingData s) (\<lambda>_ s.
        and_then (engine_call drop_backup_if_exists s) (\<lambda>_ s.
        (Inr (), log ''Table recreated successfully with created_at column'' s)))))))))"

text \<open>The \<^verbatim>\<open>try\<close> block of \<^verbatim>\<open>ensureCreatedAtColumn\<close>.\<close>

definition ensureCreatedAtColumn_try :: "'m service \<Rightarrow> ('m, unit) outcome" where
  "ensureCreatedAtColumn_try s =
     and_then (engine_call table_info s) (\<lambda>tableInfo s.
       let hasCreatedAt = (\<exists>name \<in> set tableInfo. name = ''created_at'') in
       if \<not> hasCreatedAt then
         and_then
           (engine_call alter_add_created_at
              (log ''Adding created_at column to expenses table'' s)) (\<lambda>_ s.
         and_then (engine_call (backfill_created_at (now s)) s) (\<lambda>_ s.
         (Inr (), log ''Created_at column added successfully'' s)))
       else (Inr (), s))"

definition ensureCreatedAtColumn :: "'m service \<Rightarrow> ('m, unit) outcome" where
  "ensureCreatedAtColumn s =
     (if \<not> db s then (Inr (), s)
      else
        (case ensureCreatedAtColumn_try s of
           (Inr _, s1) \<Rightarrow> (Inr (), s1)
         | (Inl error, s1) \<Rightarrow>
             (case recreateTableWithCreatedAt
                     (log ''Attempting table recreation...''
                        (log ''Error ensuring created_at column:'' s1)) of
                (Inr _, s2) \<Rightarrow> (Inr (), s2)
              | (Inl recreateError, s2) \<Rightarrow> (Inr (), log ''Error recreating table:'' s2))))"

text \<open>\<^verbatim>\<open>this.db\<close> is assigned as soon as the file is open, before the table is created.\<close>

definition initializeDatabase :: "'m service \<Rightarrow> ('m, unit) outcome" where
  "initializeDatabase s =
     rethrow ''Error initializing database:''
       (and_then (openDatabaseAsync s) (\<lambda>_ s.
        and_then (engine_call create_table_if_not_exists (s\<lparr>db := True\<rparr>)) (\<lambda>_ s.
        and_then (ensureCreatedAtColumn s) (\<lambda>_ s.
        (Inr (), log ''Database initialized successfully'' s)))))"

definition addExpense :: "'m expense_input \<Rightarrow> 'm service \<Rightarrow> ('m, int) outcome" where
  "addExpense expense s =
     (if \<not> db s then (Inl Database_not_initialized, s)
      else
        rethrow ''Error adding expense:''
          (engine_call
             (insert_expense (now s)
                (expense\<lparr>description := Some (or_else (description expense) [])\<rparr>)) s))"

definition getAllExpenses :: "'m service \<Rightarrow> ('m, 'm expense list) outcome" where
  "getAllExpenses s =
     (if \<not> db s then (Inl Database_not_initialized, s)
      else rethrow ''Error fetching expenses:'' (engine_call select_all_ordered s))"

definition getExpenseById :: "int \<Rightarrow> 'm service \<Rightarrow> ('m, 'm expense option) outcome" where
  "getExpenseById i s =
     (if \<not> db s then (Inl Database_not_initialized, s)
      else rethrow ''Error fetching expense by id:'' (engine_call (select_by_id i) s))"

definition updateExpense :: "int \<Rightarrow> 'm expense_input \<Rightarrow> 'm service \<Rightarrow> ('m, unit) outcome" where
  "updateExpense i expense s =
     (if \<not> db s then (Inl Database_not_initialized, s)
      else
        rethrow ''Error updating expense:''
          (engine_call
             (update_by_id i
                (expense\<lparr>description := Some (or_else (description expense) [])\<rparr>)) s))"

definition deleteExpense :: "int \<Rightarrow> 'm service \<Rightarrow> ('m, unit) outcome" where
  "deleteExpense i s =
     (if \<not> db s then (Inl Database_not_initialized, s)
      else rethrow ''Error deleting expense:'' (engine_call (delete_by_id i) s))"

definition searchExpenses :: "string \<Rightarrow> 'm service \<Rightarrow> ('m, 'm expense list) outcome" where
  "searchExpenses query s =
     (if \<not> db s then (Inl Database_not_initialized, s)
      else
        rethrow ''Error searching expenses:''
          (engine_call (select_like (''%'' @ query @ ''%'')) s))"

text \<open>\<^verbatim>\<open>categorySums[item.category] = item.total\<close> on the plain object \<^verbatim>\<open>{}\<close>: the key
  \<^verbatim>\<open>__proto__\<close> is the accessor of \<^verbatim>\<open>Object.prototype\<close>, whose setter ignores a number, so
  that assignment stores nothing; every other key becomes a property of the object.\<close>

definition assign :: "(string \<rightharpoonup> 'm) \<Rightarrow> string \<times> 'm \<Rightarrow> (string \<rightharpoonup> 'm)" where
  "assign obj item = (if fst item = ''__proto__'' then obj else obj(fst item \<mapsto> snd item))"

definition getExpenseStats ::
    "(string \<Rightarrow> string option) \<Rightarrow> 'm service \<Rightarrow> ('m::{plus,zero,ord}, 'm ExpenseStats) outcome" where
  "getExpenseStats strftime_ym s =
     (if \<not> db s then (Inl Database_not_initialized, s)
      else
        rethrow ''Error fetching expense stats:''
          (and_then (engine_call select_sum s) (\<lambda>totalResult s.
           and_then (engine_call select_sum_by_category s) (\<lambda>categoryResult s.
           and_then (engine_call (select_sum_by_month strftime_ym) s) (\<lambda>monthlyResult s.
           (Inr \<lparr>totalExpenses = (case totalResult of None \<Rightarrow> 0 | Some sum_total \<Rightarrow> sum_total),
                 categorySums = foldl assign Map.empty categoryResult,
                 monthlyData = monthlyResult\<rparr>, s))))))"

definition clearAllData :: "'m service \<Rightarrow> ('m, unit) outcome" where
  "clearAllData s =
     (if \<not> db s then (Inl Database_not_initialized, s)
      else rethrow ''Error clearing all data:'' (engine_call delete_all s))"

definition resetDatabase :: "'m service \<Rightarrow> ('m, unit) outcome" where
  "resetDatabase s =
     (if \<not> db s then (Inl Database_not_initialized, s)
      else
        rethrow ''Error resetting database:''
          (and_then (engine_call drop_table_if_exists s) (\<lambda>_ s.
           and_then (engine_call create_table s) (\<lambda>_ s.
           (Inr (), log ''Database reset successfully'' s)))))"

definition getExpensesByDateRange ::
    "string \<Rightarrow> string \<Rightarrow> 'm service \<Rightarrow> ('m, 'm expense list) outcome" where
  "getExpensesByDateRange startDate endDate s =
     (if \<not> db s then (Inl Database_not_initialized, s)
      else
        rethrow ''Error fetching expenses by date range:''
          (engine_call (select_date_range startDate endDate) s))"

subsection \<open>Notions the properties are stated with\<close>









subsection \<open>Doubles\<close>

text \<open>A finite double, given by its value. The sum of two doubles is the double nearest
  to the sum of their values, the one with the even significand of 53 bits when two are
  equally near; the unit of the last place is never less than \<open>2\<^sup>-\<^sup>1\<^sup>0\<^sup>7\<^sup>4\<close>. Sums beyond the
  largest double, which round to an infinity, are outside this type.\<close>

datatype binary64 = Binary64 (value_of: rat)

definition round_half_even :: "rat \<Rightarrow> int" where
  "round_half_even x =
     (let n = \<lfloor>x\<rfloor>; rest = x - of_int n
      in if rest < 1 / 2 then n
         else if 1 / 2 < rest then n + 1
         else if even n then n else n + 1)"

text \<open>\<open>normalise fuel m u\<close> scales a magnitude \<open>m * u\<close> until \<open>m\<close> has 53 bits before the
  point, or the unit \<open>u\<close> is the least one.\<close>

definition least_exponent :: nat where
  "least_exponent = 1074"

fun normalise :: "nat \<Rightarrow> rat \<Rightarrow> rat \<Rightarrow> rat \<times> rat" where
  "normalise 0 m u = (m, u)"
| "normalise (Suc fuel) m u =
     (if m < 2 ^ 52 \<and> 1 / 2 ^ least_exponent < u then normalise fuel (m * 2) (u / 2)
      else if 2 ^ 53 \<le> m then normalise fuel (m / 2) (u * 2)
      else (m, u))"

definition round64 :: "rat \<Rightarrow> rat" where
  "round64 x =
     (if x = 0 then 0
      else
        (case normalise 2200 \<bar>x\<bar> 1 of
           (m, u) \<Rightarrow> sgn x * of_int (round_half_even m) * u))"

definition representable :: "rat \<Rightarrow> bool" where
  "representable x \<longleftrightarrow> round64 x = x"

instantiation binary64 :: "{zero, plus, ord}"
begin

definition zero_binary64 :: binary64 where
  "zero_binary64 = Binary64 0"

definition plus_binary64 :: "binary64 \<Rightarrow> binary64 \<Rightarrow> binary64" where
  "plus_binary64 a b = Binary64 (round64 (value_of a + value_of b))"

definition less_eq_binary64 :: "binary64 \<Rightarrow> binary64 \<Rightarrow> bool" where
  "less_eq_binary64 a b \<longleftrightarrow> value_of a \<le> value_of b"

definition less_binary64 :: "binary64 \<Rightarrow> binary64 \<Rightarrow> bool" where
  "less_binary64 a b \<longleftrightarrow> value_of a < value_of b"

instance ..

end

text \<open>\<^verbatim>\<open>sum(categorySums.values())\<close> as a caller computes it: the values of the object,
  taken in the order \<open>ks\<close> of its keys, added one after the other from \<open>0\<close>.\<close>

definition sum_of_categories :: "string list \<Rightarrow> ('m::{plus,zero}) ExpenseStats \<Rightarrow> 'm" where
  "sum_of_categories ks stats =
     foldl (+) 0 (map (\<lambda>k. case categorySums stats k of Some v \<Rightarrow> v | None \<Rightarrow> 0) ks)"

text \<open>The date function of the engine on a well-formed date: its first seven characters.\<close>

definition year_month :: "string \<Rightarrow> string option" where
  "year_month d = Some (take 7 d)"

text \<open>A run of the operations that write rows, and the ids that \<^verbatim>\<open>addExpense\<close> returns
  along it. A call that throws is caught by the caller and the run goes on.\<close>

datatype 'm operation =
    Add "'m expense_input"
  | Update int "'m expense_input"
  | Delete int
  | Clear

fun assigned_ids :: "'m operation list \<Rightarrow> 'm service \<Rightarrow> int list" where
  "assigned_ids [] s = []"
| "assigned_ids (Add e # ops) s =
     (case addExpense e s of
        (Inr i, s') \<Rightarrow> i # assigned_ids ops s'
      | (Inl _, s') \<Rightarrow> assigned_ids ops s')"
| "assigned_ids (Update i e # ops) s = assigned_ids ops (snd (updateExpense i e s))"
| "assigned_ids (Delete i # ops) s = assigned_ids ops (snd (deleteExpense i s))"
| "assigned_ids (Clear # ops) s = assigned_ids ops (snd (clearAllData s))"

text \<open>The amounts of a list add up without rounding in every grouping when every sum of a
  filtered prefix of them is a double.\<close>

definition exact_sums :: "('r \<Rightarrow> rat) \<Rightarrow> 'r list \<Rightarrow> bool" where
  "exact_sums v rs \<longleftrightarrow> (\<forall>P j. representable (sum_list (map v (filter P (take j rs)))))"

subsection \<open>Example stores and inputs\<close>

text \<open>A first launch: no file yet, no handle, an engine that rejects nothing.\<close>

definition fresh_install :: "real service" where
  "fresh_install =
     \<lparr>db = False,
      disk = \<lparr>expenses = None, expenses_backup = None, sqlite_sequence = None\<rparr>,
      faults = [], now = ''2025-08-18 10:00:00'', js_now = ''2025-08-18T10:00:00.000Z'',
      console = []\<rparr>"

text \<open>A launch on a file written before \<^verbatim>\<open>created_at\<close> existed.\<close>

definition legacy_install :: "real service" where
  "legacy_install =
     \<lparr>db = False,
      disk = \<lparr>expenses = Some \<lparr>created_at_col = Missing,
                rows = [\<lparr>title = ''Coffee'', amount = 3, category = ''Food'',
                         date = ''2024-01-05'', description = None, rowid = 1,
                         created_at = None\<rparr>]\<rparr>,
              expenses_backup = None, sqlite_sequence = Some 1\<rparr>,
      faults = [], now = ''2025-08-18 10:00:00'', js_now = ''2025-08-18T10:00:00.000Z'',
      console = []\<rparr>"

definition lunch :: "real expense_input" where
  "lunch = \<lparr>title = ''Lunch'', amount = 85.5, category = ''Food'', date = ''2025-08-18'',
            description = None\<rparr>"

definition taxi :: "real expense_input" where
  "taxi = \<lparr>title = ''Taxi'', amount = 45, category = ''Transportation'',
           date = ''2025-08-17'', description = Some ''Airport''\<rparr>"

definition cinema :: "real expense_input" where
  "cinema = \<lparr>title = ''Cinema'', amount = 28, category = ''Entertainment'',
             date = ''2025-08-18'', description = Some ''Late show''\<rparr>"

definition initialized :: "real service" where
  "initialized = snd (initializeDatabase fresh_install)"

definition migrated :: "real service" where
  "migrated = snd (initializeDatabase legacy_install)"

definition three_expenses :: "real service" where
  "three_expenses =
     snd (addExpense cinema (snd (addExpense taxi (snd (addExpense lunch initialized)))))"

text \<open>Two launches on which the engine accepts the opening of the file and rejects the
  \<^verbatim>\<open>CREATE TABLE IF NOT EXISTS\<close> that follows: a first launch, and a later launch on a file
  that holds three expenses.\<close>

definition failing_install :: "real service" where
  "failing_install = fresh_install\<lparr>faults := [False, True]\<rparr>"

definition failing_relaunch :: "real service" where
  "failing_relaunch = three_expenses\<lparr>db := False, faults := [False, True]\<rparr>"

text \<open>A store whose repair is rejected twice: the engine answers \<^verbatim>\<open>PRAGMA table_info\<close>,
  rejects the \<^verbatim>\<open>ALTER TABLE\<close> and then rejects the first statement of the
  reconstruction. The first has its handle open; the second is the same file at launch.\<close>

definition repair_rejected :: "real service" where
  "repair_rejected = legacy_install\<lparr>db := True, faults := [False, True, True]\<rparr>"

definition launch_repair_rejected :: "real service" where
  "launch_repair_rejected = legacy_install\<lparr>faults := [False, False, False, True, True]\<rparr>"



text \<open>Stores whose amounts are doubles: a record with a given id, category and amount, and
  an open store over a table of such records.\<close>

definition entry :: "int \<Rightarrow> string \<Rightarrow> binary64 \<Rightarrow> binary64 expense" where
  "entry i c a =
     \<lparr>title = ''Item'', amount = a, category = c, date = ''2025-08-18'',
      description = Some [], rowid = i, created_at = Some ''2025-08-18 10:00:00''\<rparr>"

definition ledger :: "binary64 expense list \<Rightarrow> binary64 service" where
  "ledger rs =
     \<lparr>db = True,
      disk = \<lparr>expenses = Some \<lparr>created_at_col = Default_now, rows = rs\<rparr>,
              expenses_backup = None, sqlite_sequence = Some (int (length rs))\<rparr>,
      faults = [], now = ''2025-08-18 10:00:00'', js_now = ''2025-08-18T10:00:00.000Z'',
      console = []\<rparr>"

text \<open>The doubles nearest to \<open>0.1\<close> and \<open>1.1\<close>, and three stores: one whose sums round, one
  with a category named \<^verbatim>\<open>__proto__\<close>, and one whose sums are all exact.\<close>

definition tenth :: binary64 where
  "tenth = Binary64 (3602879701896397 / 36028797018963968)"

definition eleven_tenths :: binary64 where
  "eleven_tenths = Binary64 (2476979795053773 / 2251799813685248)"

definition rounding_ledger :: "binary64 service" where
  "rounding_ledger =
     ledger [entry 1 ''A'' tenth, entry 2 ''B'' tenth, entry 3 ''A'' eleven_tenths]"

definition proto_ledger :: "binary64 service" where
  "proto_ledger = ledger [entry 1 ''__proto__'' (Binary64 5), entry 2 ''Food'' (Binary64 7)]"

definition exact_ledger :: "binary64 service" where
  "exact_ledger =
     ledger [entry 1 ''Food'' (Binary64 (171 / 2)), entry 2 ''Transportation'' (Binary64 45),
             entry 3 ''Entertainment'' (Binary64 28), entry 4 ''Food'' (Binary64 (41 / 4))]"

section \<open>Properties\<close>

subsection \<open>Engine calls\<close>

lemma engine_call_no_fault:
  "faults s = [] \<Longrightarrow>
   engine_call stmt s =
     (case stmt (disk s) of Inl e \<Rightarrow> (Inl e, s) | Inr (v, d) \<Rightarrow> (Inr v, s\<lparr>disk := d\<rparr>))"
  by (simp add: engine_call_def split: sum.splits)

subsection \<open>ORDER BY sorts and keeps every row\<close>

lemma mset_insert_by: "mset (insert_by le x ys) = add_mset x (mset ys)"
  by (induction ys) auto

lemma mset_order_by: "mset (order_by le xs) = mset xs"
  by (induction xs) (auto simp: order_by_def mset_insert_by)

lemma set_insert_by: "set (insert_by le x ys) = insert x (set ys)"
  by (induction ys) auto

lemma set_order_by: "set (order_by le xs) = set xs"
  using mset_order_by [of le xs] by (metis set_mset_mset)

lemma sorted_insert_by:
  assumes total: "\<And>a b. le a b \<or> le b a"
      and trans: "\<And>a b c. le a b \<Longrightarrow> le b c \<Longrightarrow> le a c"
  shows "sorted_wrt le ys \<Longrightarrow> sorted_wrt le (insert_by le x ys)"
proof (induction ys)
  case Nil
  then show ?case by simp
next
  case (Cons y ys)
  show ?case
  proof (cases "le x y")
    case True
    with Cons.prems show ?thesis by (auto intro: trans)
  next
    case False
    then have "le y x" using total by blast
    with False Cons show ?thesis by (auto simp: set_insert_by)
  qed
qed

lemma sorted_order_by:
  assumes total: "\<And>a b. le a b \<or> le b a"
      and trans: "\<And>a b c. le a b \<Longrightarrow> le b c \<Longrightarrow> le a c"
  shows "sorted_wrt le (order_by le xs)"
proof (induction xs)
  case Nil
  then show ?case by (simp add: order_by_def)
next
  case (Cons x xs)
  have "order_by le (x # xs) = insert_by le x (order_by le xs)"
    by (simp add: order_by_def)
  with Cons show ?case using sorted_insert_by [of le, OF total trans] by simp
qed

lemma date_desc_id_desc_total: "date_desc_id_desc a b \<or> date_desc_id_desc b a"
  unfolding date_desc_id_desc_def by (cases "date a = date b") auto

lemma date_desc_id_desc_trans:
  "date_desc_id_desc a b \<Longrightarrow> date_desc_id_desc b c \<Longrightarrow> date_desc_id_desc a c"
  unfolding date_desc_id_desc_def by auto

subsection \<open>The example stores, evaluated\<close>

lemma initialized_eq:
  "initialized =
     \<lparr>db = True,
      disk = \<lparr>expenses = Some \<lparr>created_at_col = Default_now, rows = []\<rparr>,
              expenses_backup = None, sqlite_sequence = None\<rparr>,
      faults = [], now = ''2025-08-18 10:00:00'', js_now = ''2025-08-18T10:00:00.000Z'',
      console = [''Database initialized successfully'']\<rparr>"
  by code_simp

lemma three_expenses_facts:
  "db three_expenses"
  "faults three_expenses = []"
  "expenses (disk three_expenses) =
     Some \<lparr>created_at_col = Default_now,
           rows = [\<lparr>title = ''Lunch'', amount = 85.5, category = ''Food'',
                    date = ''2025-08-18'', description = Some [], rowid = 1,
                    created_at = Some ''2025-08-18 10:00:00''\<rparr>,
                   \<lparr>title = ''Taxi'', amount = 45, category = ''Transportation'',
                    date = ''2025-08-17'', description = Some ''Airport'', rowid = 2,
                    created_at = Some ''2025-08-18 10:00:00''\<rparr>,
                   \<lparr>title = ''Cinema'', amount = 28, category = ''Entertainment'',
                    date = ''2025-08-18'', description = Some ''Late show'', rowid = 3,
                    created_at = Some ''2025-08-18 10:00:00''\<rparr>]\<rparr>"
  by code_simp+

subsection \<open>Listing\<close>

text \<open>
  Claim C2. On every store whose handle is open and whose table exists, with an engine
  that rejects no call, \<^verbatim>\<open>getAllExpenses\<close> returns every row of the table, each as often as
  the table holds it, later dates first and, among equal dates, larger ids first. The
  store may hold any rows in any order of insertion, and the call leaves it as it was.
\<close>

theorem getAllExpenses_sorted:
  assumes "db s" and "faults s = []" and "expenses (disk s) = Some t"
  shows "\<exists>rs. getAllExpenses s = (Inr rs, s)
           \<and> mset rs = mset (rows t)
           \<and> sorted_wrt (\<lambda>a b. date b < date a \<or> (date a = date b \<and> rowid b \<le> rowid a)) rs"
proof -
  let ?rs = "order_by date_desc_id_desc (rows t)"
  have run: "getAllExpenses s = (Inr ?rs, s)"
    using assms
    by (simp add: getAllExpenses_def engine_call_no_fault select_all_ordered_def rethrow_def)
  have "sorted_wrt date_desc_id_desc ?rs"
    using date_desc_id_desc_total date_desc_id_desc_trans
    by (rule sorted_order_by [where le = date_desc_id_desc])
  then have "sorted_wrt (\<lambda>a b. date b < date a \<or> (date a = date b \<and> rowid b \<le> rowid a)) ?rs"
    by (simp add: date_desc_id_desc_def [abs_def])
  with run show ?thesis by (simp add: mset_order_by)
qed

theorem getAllExpenses_sorted_witness:
  "db three_expenses \<and> faults three_expenses = [] \<and> expenses (disk three_expenses) \<noteq> None
   \<and> (\<exists>rs. getAllExpenses three_expenses = (Inr rs, three_expenses)
         \<and> length rs = 3
         \<and> sorted_wrt (\<lambda>a b. date b < date a \<or> (date a = date b \<and> rowid b \<le> rowid a)) rs)"
proof -
  note facts = three_expenses_facts
  from getAllExpenses_sorted [OF facts] obtain rs
    where rs: "getAllExpenses three_expenses = (Inr rs, three_expenses)"
      "mset rs = mset (rows (the (expenses (disk three_expenses))))"
      "sorted_wrt (\<lambda>a b. date b < date a \<or> (date a = date b \<and> rowid b \<le> rowid a)) rs"
    by (auto simp: facts(3))
  from rs(2) have "size (mset rs) = size (mset (rows (the (expenses (disk three_expenses)))))"
    by simp
  then have "length rs = 3"
    by (simp add: facts(3))
  with rs facts show ?thesis by auto
qed

subsection \<open>Calls on a store whose engine rejects nothing\<close>

lemma fold_max_ge_start: "(a::int) \<le> fold max xs a"
  by (induction xs arbitrary: a) (auto intro: order_trans [OF max.cobounded2])

lemma fold_max_ge_member: "(x::int) \<in> set xs \<Longrightarrow> x \<le> fold max xs a"
proof (induction xs arbitrary: a)
  case Nil
  then show ?case by simp
next
  case (Cons y ys)
  show ?case
  proof (cases "x = y")
    case True
    have "max y a \<le> fold max ys (max y a)" by (rule fold_max_ge_start)
    with True show ?thesis by simp
  next
    case False
    with Cons show ?thesis by simp
  qed
qed

lemma next_rowid_fresh: "r \<in> set (rows t) \<Longrightarrow> rowid r < next_rowid d t"
  using fold_max_ge_member [of "rowid r" "map rowid (rows t)" "sequence_value d"]
  by (simp add: next_rowid_def)

lemma next_rowid_above_sequence: "sequence_value d < next_rowid d t"
  using fold_max_ge_start [of "sequence_value d" "map rowid (rows t)"]
  by (simp add: next_rowid_def)

lemma find_appended:
  "\<forall>r \<in> set rs. \<not> P r \<Longrightarrow> P x \<Longrightarrow> find P (rs @ [x]) = Some x"
  by (induction rs) auto

lemma find_absent: "\<forall>r \<in> set rs. \<not> P r \<Longrightarrow> find P rs = None"
  by (induction rs) auto

lemma find_map_keeping:
  "(\<And>r. P (f r) = P r) \<Longrightarrow> find P (map f rs) = map_option f (find P rs)"
  by (induction rs) auto

lemma map_unchanged: "\<forall>r \<in> set rs. \<not> P r \<Longrightarrow> map (\<lambda>r. if P r then f r else r) rs = rs"
  by (induction rs) auto

lemma or_else_empty: "or_else v [] = (case v of None \<Rightarrow> [] | Some d \<Rightarrow> d)"
  by (simp add: or_else_def split: option.splits)

lemma addExpense_no_fault:
  assumes "db s" and "faults s = []" and "expenses (disk s) = Some t"
  shows "addExpense e s =
     (Inr (next_rowid (disk s) t),
      s\<lparr>disk := (disk s)\<lparr>expenses := Some (t\<lparr>rows := rows t @
           [\<lparr>title = title e, amount = amount e, category = category e, date = date e,
             description = Some (or_else (description e) []),
             rowid = next_rowid (disk s) t,
             created_at = (if created_at_col t = Default_now then Some (now s) else None)\<rparr>]\<rparr>),
         sqlite_sequence := Some (next_rowid (disk s) t)\<rparr>\<rparr>)"
  using assms
  by (simp add: addExpense_def engine_call_no_fault insert_expense_def rethrow_def Let_def)

lemma getExpenseById_no_fault:
  assumes "db s" and "faults s = []" and "expenses (disk s) = Some t"
  shows "getExpenseById i s = (Inr (find (\<lambda>r. rowid r = i) (rows t)), s)"
  using assms
  by (simp add: getExpenseById_def engine_call_no_fault select_by_id_def rethrow_def)

lemma getAllExpenses_no_fault:
  assumes "db s" and "faults s = []" and "expenses (disk s) = Some t"
  shows "getAllExpenses s = (Inr (order_by date_desc_id_desc (rows t)), s)"
  using assms
  by (simp add: getAllExpenses_def engine_call_no_fault select_all_ordered_def rethrow_def)

lemma updateExpense_no_fault:
  assumes "db s" and "faults s = []" and "expenses (disk s) = Some t"
  shows "updateExpense i e s =
     (Inr (),
      s\<lparr>disk := (disk s)\<lparr>expenses := Some (t\<lparr>rows :=
           map (\<lambda>r. if rowid r = i
                    then r\<lparr>title := title e, amount := amount e, category := category e,
                           date := date e, description := Some (or_else (description e) [])\<rparr>
                    else r) (rows t)\<rparr>)\<rparr>\<rparr>)"
  using assms
  by (simp add: updateExpense_def engine_call_no_fault update_by_id_def rethrow_def)

lemma deleteExpense_no_fault:
  assumes "db s" and "faults s = []" and "expenses (disk s) = Some t"
  shows "deleteExpense i s =
     (Inr (), s\<lparr>disk := (disk s)\<lparr>expenses :=
                 Some (t\<lparr>rows := filter (\<lambda>r. rowid r \<noteq> i) (rows t)\<rparr>)\<rparr>\<rparr>)"
  using assms
  by (simp add: deleteExpense_def engine_call_no_fault delete_by_id_def rethrow_def)

subsection \<open>Adding, then reading back\<close>

text \<open>
  Claim C1, as the code has it. On every store whose handle is open, whose table exists
  and whose engine rejects no call, \<^verbatim>\<open>addExpense\<close> returns an id, and \<^verbatim>\<open>getExpenseById\<close> on
  that id then returns a record with the title, amount, category and date of the input,
  with the description of the input when it has one and the empty text when it has none,
  and with the returned id; when the table declares \<^verbatim>\<open>created_at\<close> with its default (a
  table made by one of the \<^verbatim>\<open>CREATE TABLE\<close> statements of the source), the record has a
  \<^verbatim>\<open>created_at\<close> that is not null.
\<close>

theorem addExpense_then_getExpenseById:
  assumes "db s" and "faults s = []" and "expenses (disk s) = Some t"
  shows "\<exists>i s' r. addExpense e s = (Inr i, s')
           \<and> getExpenseById i s' = (Inr (Some r), s')
           \<and> title r = title e \<and> amount r = amount e \<and> category r = category e
           \<and> date r = date e
           \<and> description r = Some (case description e of None \<Rightarrow> [] | Some d \<Rightarrow> d)
           \<and> rowid r = i
           \<and> (created_at_col t = Default_now \<longrightarrow> created_at r \<noteq> None)"
proof -
  let ?i = "next_rowid (disk s) t"
  let ?r = "\<lparr>title = title e, amount = amount e, category = category e, date = date e,
             description = Some (or_else (description e) []), rowid = ?i,
             created_at = (if created_at_col t = Default_now then Some (now s) else None)\<rparr>"
  let ?t' = "t\<lparr>rows := rows t @ [?r]\<rparr>"
  let ?s' = "s\<lparr>disk := (disk s)\<lparr>expenses := Some ?t', sqlite_sequence := Some ?i\<rparr>\<rparr>"
  have add: "addExpense e s = (Inr ?i, ?s')"
    using assms by (rule addExpense_no_fault)
  have "\<forall>r \<in> set (rows t). rowid r \<noteq> ?i"
    using next_rowid_fresh [of _ t "disk s"] by fastforce
  then have "find (\<lambda>r. rowid r = ?i) (rows t @ [?r]) = Some ?r"
    by (intro find_appended) auto
  moreover have "getExpenseById ?i ?s' = (Inr (find (\<lambda>r. rowid r = ?i) (rows ?t')), ?s')"
    using assms(1,2) by (intro getExpenseById_no_fault) auto
  ultimately have get: "getExpenseById ?i ?s' = (Inr (Some ?r), ?s')"
    by simp
  show ?thesis
    using add get by (auto simp: or_else_empty)
qed

theorem addExpense_then_getExpenseById_witness:
  "db initialized \<and> faults initialized = []
   \<and> (\<exists>i s' r. addExpense taxi initialized = (Inr i, s')
         \<and> getExpenseById i s' = (Inr (Some r), s')
         \<and> title r = ''Taxi'' \<and> amount r = 45 \<and> category r = ''Transportation''
         \<and> date r = ''2025-08-17'' \<and> description r = Some ''Airport''
         \<and> rowid r = i \<and> created_at r \<noteq> None)
   \<and> db migrated \<and> faults migrated = []
   \<and> (\<exists>i s' r. addExpense taxi migrated = (Inr i, s')
         \<and> getExpenseById i s' = (Inr (Some r), s')
         \<and> title r = ''Taxi'' \<and> amount r = 45 \<and> category r = ''Transportation''
         \<and> date r = ''2025-08-17'' \<and> description r = Some ''Airport''
         \<and> rowid r = i)"
proof -
  have facts: "db initialized" "faults initialized = []"
    "expenses (disk initialized) = Some \<lparr>created_at_col = Default_now, rows = []\<rparr>"
    by (simp_all add: initialized_eq)
  have repaired: "db migrated" "faults migrated = []"
    "expenses (disk migrated) =
       Some \<lparr>created_at_col = No_default,
             rows = [\<lparr>title = ''Coffee'', amount = 3, category = ''Food'',
                      date = ''2024-01-05'', description = None, rowid = 1,
                      created_at = Some ''2025-08-18 10:00:00''\<rparr>]\<rparr>"
    by code_simp+
  from addExpense_then_getExpenseById [OF facts, of taxi]
  have first: "\<exists>i s' r. addExpense taxi initialized = (Inr i, s')
         \<and> getExpenseById i s' = (Inr (Some r), s')
         \<and> title r = ''Taxi'' \<and> amount r = 45 \<and> category r = ''Transportation''
         \<and> date r = ''2025-08-17'' \<and> description r = Some ''Airport''
         \<and> rowid r = i \<and> created_at r \<noteq> None"
    by (simp add: taxi_def)
  from addExpense_then_getExpenseById [OF repaired, of taxi]
  have second: "\<exists>i s' r. addExpense taxi migrated = (Inr i, s')
         \<and> getExpenseById i s' = (Inr (Some r), s')
         \<and> title r = ''Taxi'' \<and> amount r = 45 \<and> category r = ''Transportation''
         \<and> date r = ''2025-08-17'' \<and> description r = Some ''Airport''
         \<and> rowid r = i"
    by (simp add: taxi_def)
  from facts(1,2) repaired(1,2) first second show ?thesis by blast
qed

text \<open>
  Claim C1 as stated fails in two ways. An input with no description comes back with the
  empty text as its description, which is not the input's. And on a store whose column
  \<^verbatim>\<open>created_at\<close> was added by the repair step of \<^verbatim>\<open>initializeDatabase\<close>, the column has no
  default, and a record added afterwards comes back with a null \<^verbatim>\<open>created_at\<close>.
\<close>

theorem addExpense_then_getExpenseById_counterexample:
  "description lunch = None
   \<and> fst (addExpense lunch initialized) = Inr 1
   \<and> fst (getExpenseById 1 (snd (addExpense lunch initialized))) =
       Inr (Some \<lparr>title = ''Lunch'', amount = 85.5, category = ''Food'',
                  date = ''2025-08-18'', description = Some [], rowid = 1,
                  created_at = Some ''2025-08-18 10:00:00''\<rparr>)
   \<and> db migrated
   \<and> fst (addExpense taxi migrated) = Inr 2
   \<and> fst (getExpenseById 2 (snd (addExpense taxi migrated))) =
       Inr (Some \<lparr>title = ''Taxi'', amount = 45, category = ''Transportation'',
                  date = ''2025-08-17'', description = Some ''Airport'', rowid = 2,
                  created_at = None\<rparr>)"
  by code_simp

subsection \<open>Updating and deleting\<close>

text \<open>
  Claim C5, as the code has it. On a store whose handle is open, whose table exists and
  whose engine rejects no call: when \<^verbatim>\<open>getExpenseById\<close> finds a record under an id,
  \<^verbatim>\<open>updateExpense\<close> on that id succeeds and \<^verbatim>\<open>getExpenseById\<close> then returns a record with
  the title, amount, category and date of the replacement, with its description when it
  has one and the empty text when it has none, and with the id and \<^verbatim>\<open>created_at\<close> of the
  record found before; when no row has the id, \<^verbatim>\<open>updateExpense\<close> succeeds and leaves the
  whole state as it was.
\<close>

theorem updateExpense_then_getExpenseById:
  assumes "db s" and "faults s = []" and "expenses (disk s) = Some t"
  shows "(\<forall>old. getExpenseById i s = (Inr (Some old), s) \<longrightarrow>
            (\<exists>s' r. updateExpense i x s = (Inr (), s')
               \<and> getExpenseById i s' = (Inr (Some r), s')
               \<and> title r = title x \<and> amount r = amount x \<and> category r = category x
               \<and> date r = date x
               \<and> description r = Some (case description x of None \<Rightarrow> [] | Some d \<Rightarrow> d)
               \<and> rowid r = i \<and> rowid r = rowid old \<and> created_at r = created_at old))
       \<and> (i \<notin> rowid ` set (rows t) \<longrightarrow> updateExpense i x s = (Inr (), s))"
proof -
  define f :: "'a expense \<Rightarrow> 'a expense" where
    "f = (\<lambda>r. if rowid r = i
              then r\<lparr>title := title x, amount := amount x, category := category x,
                     date := date x, description := Some (or_else (description x) [])\<rparr>
              else r)"
  define s' where "s' = s\<lparr>disk := (disk s)\<lparr>expenses := Some (t\<lparr>rows := map f (rows t)\<rparr>)\<rparr>\<rparr>"
  have s': "db s'" "faults s' = []" "expenses (disk s') = Some (t\<lparr>rows := map f (rows t)\<rparr>)"
    using assms(1,2) by (simp_all add: s'_def)
  have upd: "updateExpense i x s = (Inr (), s')"
    using updateExpense_no_fault [OF assms, of i x] by (simp add: s'_def f_def)
  have found: "\<exists>s' r. updateExpense i x s = (Inr (), s')
               \<and> getExpenseById i s' = (Inr (Some r), s')
               \<and> title r = title x \<and> amount r = amount x \<and> category r = category x
               \<and> date r = date x
               \<and> description r = Some (case description x of None \<Rightarrow> [] | Some d \<Rightarrow> d)
               \<and> rowid r = i \<and> rowid r = rowid old \<and> created_at r = created_at old"
    if before: "getExpenseById i s = (Inr (Some old), s)" for old
  proof -
    from before have old: "find (\<lambda>r. rowid r = i) (rows t) = Some old"
      using getExpenseById_no_fault [OF assms, of i] by simp
    then have id_old: "rowid old = i"
      by (auto simp: find_Some_iff)
    have "find (\<lambda>r. rowid r = i) (map f (rows t))
            = map_option f (find (\<lambda>r. rowid r = i) (rows t))"
      by (rule find_map_keeping) (simp add: f_def)
    then have get: "getExpenseById i s' = (Inr (Some (f old)), s')"
      using getExpenseById_no_fault [OF s', of i] old by simp
    have "title (f old) = title x \<and> amount (f old) = amount x
            \<and> category (f old) = category x \<and> date (f old) = date x
            \<and> description (f old) = Some (case description x of None \<Rightarrow> [] | Some d \<Rightarrow> d)
            \<and> rowid (f old) = i \<and> rowid (f old) = rowid old
            \<and> created_at (f old) = created_at old"
      using id_old by (simp add: f_def or_else_empty)
    with upd get show ?thesis by blast
  qed
  have absent: "updateExpense i x s = (Inr (), s)" if "i \<notin> rowid ` set (rows t)"
  proof -
    from that have "\<forall>r \<in> set (rows t). \<not> rowid r = i" by auto
    then have "map f (rows t) = rows t"
      unfolding f_def by (rule map_unchanged)
    then have "s' = s" using assms(3) by (simp add: s'_def)
    with upd show ?thesis by simp
  qed
  from found absent show ?thesis by blast
qed

theorem updateExpense_then_getExpenseById_witness:
  "db three_expenses \<and> faults three_expenses = []
   \<and> (\<exists>old. getExpenseById 2 three_expenses = (Inr (Some old), three_expenses)
         \<and> created_at old = Some ''2025-08-18 10:00:00'')
   \<and> (\<exists>s' r. updateExpense 2 cinema three_expenses = (Inr (), s')
         \<and> getExpenseById 2 s' = (Inr (Some r), s')
         \<and> title r = ''Cinema'' \<and> description r = Some ''Late show''
         \<and> rowid r = 2 \<and> created_at r = Some ''2025-08-18 10:00:00'')
   \<and> updateExpense 7 cinema three_expenses = (Inr (), three_expenses)"
proof -
  note facts = three_expenses_facts
  note main = updateExpense_then_getExpenseById [OF facts]
  have before: "getExpenseById 2 three_expenses =
      (Inr (Some \<lparr>title = ''Taxi'', amount = 45, category = ''Transportation'',
                  date = ''2025-08-17'', description = Some ''Airport'', rowid = 2,
                  created_at = Some ''2025-08-18 10:00:00''\<rparr>), three_expenses)"
    using getExpenseById_no_fault [OF facts, of 2] by simp
  from main [of 2 cinema, THEN conjunct1, rule_format, OF before]
  have part1: "\<exists>s' r. updateExpense 2 cinema three_expenses = (Inr (), s')
         \<and> getExpenseById 2 s' = (Inr (Some r), s')
         \<and> title r = ''Cinema'' \<and> description r = Some ''Late show''
         \<and> rowid r = 2 \<and> created_at r = Some ''2025-08-18 10:00:00''"
    by (auto simp: cinema_def)
  from main [of 7 cinema, THEN conjunct2]
  have part2: "updateExpense 7 cinema three_expenses = (Inr (), three_expenses)"
    by simp
  from facts(1,2) before part1 part2 show ?thesis by auto
qed

text \<open>
  Claim C5 as stated fails where the replacement has no description: the record read
  back has the empty text as its description, not an absent one.
\<close>

theorem updateExpense_then_getExpenseById_counterexample:
  "description lunch = None
   \<and> fst (updateExpense 2 lunch three_expenses) = Inr ()
   \<and> fst (getExpenseById 2 (snd (updateExpense 2 lunch three_expenses))) =
       Inr (Some \<lparr>title = ''Lunch'', amount = 85.5, category = ''Food'',
                  date = ''2025-08-18'', description = Some [], rowid = 2,
                  created_at = Some ''2025-08-18 10:00:00''\<rparr>)"
  by code_simp

text \<open>
  Claim C6. On a store whose handle is open, whose table exists and whose engine rejects
  no call, \<^verbatim>\<open>deleteExpense\<close> returns normally for every id, whether a row has it or not,
  and \<^verbatim>\<open>getExpenseById\<close> on that id then returns null, not an error.
\<close>

theorem deleteExpense_then_not_found:
  assumes "db s" and "faults s = []" and "expenses (disk s) = Some t"
  shows "\<exists>s'. deleteExpense i s = (Inr (), s') \<and> getExpenseById i s' = (Inr None, s')"
proof -
  let ?t' = "t\<lparr>rows := filter (\<lambda>r. rowid r \<noteq> i) (rows t)\<rparr>"
  let ?s' = "s\<lparr>disk := (disk s)\<lparr>expenses := Some ?t'\<rparr>\<rparr>"
  have del: "deleteExpense i s = (Inr (), ?s')"
    using assms by (rule deleteExpense_no_fault)
  have "getExpenseById i ?s' = (Inr (find (\<lambda>r. rowid r = i) (rows ?t')), ?s')"
    using assms(1,2) by (intro getExpenseById_no_fault) auto
  moreover have "find (\<lambda>r. rowid r = i) (rows ?t') = None"
    by (rule find_absent) simp
  ultimately show ?thesis using del by simp
qed

theorem deleteExpense_then_not_found_witness:
  "db three_expenses \<and> faults three_expenses = [] \<and> expenses (disk three_expenses) \<noteq> None
   \<and> (\<exists>s'. deleteExpense 2 three_expenses = (Inr (), s')
         \<and> getExpenseById 2 s' = (Inr None, s'))
   \<and> (\<exists>s'. deleteExpense 7 three_expenses = (Inr (), s')
         \<and> getExpenseById 7 s' = (Inr None, s'))"
proof -
  note facts = three_expenses_facts
  from deleteExpense_then_not_found [OF facts, of 2]
       deleteExpense_then_not_found [OF facts, of 7] facts
  show ?thesis by simp
qed

subsection \<open>The description that is not given\<close>

text \<open>
  Claim C10. On a store whose handle is open, whose table exists and whose engine rejects
  no call, an input with no description is stored with the empty text: after
  \<^verbatim>\<open>addExpense\<close>, and after \<^verbatim>\<open>updateExpense\<close> on an id that a row has, \<^verbatim>\<open>getExpenseById\<close>
  returns a record whose description is the empty text, and the list of
  \<^verbatim>\<open>getAllExpenses\<close> holds a record with that id and gives the empty text as the
  description of every record with that id.
\<close>

theorem absent_description_stored_empty:
  assumes "db s" and "faults s = []" and "expenses (disk s) = Some t"
      and "description e = None"
  shows "(\<exists>i s'. addExpense e s = (Inr i, s')
            \<and> (\<exists>r. getExpenseById i s' = (Inr (Some r), s') \<and> description r = Some [])
            \<and> (\<exists>rs. getAllExpenses s' = (Inr rs, s')
                  \<and> (\<exists>r \<in> set rs. rowid r = i)
                  \<and> (\<forall>r \<in> set rs. rowid r = i \<longrightarrow> description r = Some [])))
       \<and> (\<forall>j \<in> rowid ` set (rows t).
            \<exists>s'. updateExpense j e s = (Inr (), s')
              \<and> (\<exists>r. getExpenseById j s' = (Inr (Some r), s') \<and> description r = Some [])
              \<and> (\<exists>rs. getAllExpenses s' = (Inr rs, s')
                    \<and> (\<exists>r \<in> set rs. rowid r = j)
                    \<and> (\<forall>r \<in> set rs. rowid r = j \<longrightarrow> description r = Some [])))"
proof -
  have added: "\<exists>i s'. addExpense e s = (Inr i, s')
            \<and> (\<exists>r. getExpenseById i s' = (Inr (Some r), s') \<and> description r = Some [])
            \<and> (\<exists>rs. getAllExpenses s' = (Inr rs, s')
                  \<and> (\<exists>r \<in> set rs. rowid r = i)
                  \<and> (\<forall>r \<in> set rs. rowid r = i \<longrightarrow> description r = Some []))"
  proof -
    define i where "i = next_rowid (disk s) t"
    define r where "r = \<lparr>title = title e, amount = amount e, category = category e,
               date = date e, description = Some (or_else (description e) []), rowid = i,
               created_at = (if created_at_col t = Default_now then Some (now s) else None)\<rparr>"
    define t' where "t' = t\<lparr>rows := rows t @ [r]\<rparr>"
    define s' where "s' = s\<lparr>disk := (disk s)\<lparr>expenses := Some t', sqlite_sequence := Some i\<rparr>\<rparr>"
    have s': "db s'" "faults s' = []" "expenses (disk s') = Some t'"
      using assms(1,2) by (simp_all add: s'_def)
    have r: "rowid r = i" "description r = Some []"
      using assms(4) by (simp_all add: r_def or_else_def)
    have add: "addExpense e s = (Inr i, s')"
      using addExpense_no_fault [OF assms(1-3), of e] by (simp add: s'_def t'_def r_def i_def)
    have fresh: "\<forall>x \<in> set (rows t). rowid x \<noteq> i"
      using next_rowid_fresh [of _ t "disk s"] by (fastforce simp: i_def)
    then have "find (\<lambda>x. rowid x = i) (rows t @ [r]) = Some r"
      using r(1) by (intro find_appended) auto
    then have get: "getExpenseById i s' = (Inr (Some r), s')"
      using getExpenseById_no_fault [OF s', of i] by (simp add: t'_def)
    define rs where "rs = order_by date_desc_id_desc (rows t')"
    have all: "getAllExpenses s' = (Inr rs, s')"
      using getAllExpenses_no_fault [OF s'] by (simp add: rs_def)
    have members: "set rs = insert r (set (rows t))"
      by (simp add: rs_def set_order_by t'_def)
    have "\<exists>x \<in> set rs. rowid x = i"
      using members r(1) by blast
    moreover have "\<forall>x \<in> set rs. rowid x = i \<longrightarrow> description x = Some []"
      using members fresh r(2) by auto
    ultimately show ?thesis
      using add get all r(2) by blast
  qed
  have updated: "\<exists>s'. updateExpense j e s = (Inr (), s')
              \<and> (\<exists>r. getExpenseById j s' = (Inr (Some r), s') \<and> description r = Some [])
              \<and> (\<exists>rs. getAllExpenses s' = (Inr rs, s')
                    \<and> (\<exists>r \<in> set rs. rowid r = j)
                    \<and> (\<forall>r \<in> set rs. rowid r = j \<longrightarrow> description r = Some []))"
    if present: "j \<in> rowid ` set (rows t)" for j
  proof -
    define f :: "'a expense \<Rightarrow> 'a expense" where "f = (\<lambda>r. if rowid r = j
                   then r\<lparr>title := title e, amount := amount e, category := category e,
                          date := date e, description := Some (or_else (description e) [])\<rparr>
                   else r)"
    define t' where "t' = t\<lparr>rows := map f (rows t)\<rparr>"
    define s' where "s' = s\<lparr>disk := (disk s)\<lparr>expenses := Some t'\<rparr>\<rparr>"
    have s': "db s'" "faults s' = []" "expenses (disk s') = Some t'"
      using assms(1,2) by (simp_all add: s'_def)
    have f: "rowid (f x) = rowid x" "rowid x = j \<Longrightarrow> description (f x) = Some []" for x
      using assms(4) by (simp_all add: f_def or_else_def)
    have upd: "updateExpense j e s = (Inr (), s')"
      using updateExpense_no_fault [OF assms(1-3), of j e] by (simp add: s'_def t'_def f_def)
    from present obtain old where old: "find (\<lambda>r. rowid r = j) (rows t) = Some old"
      by (cases "find (\<lambda>r. rowid r = j) (rows t)") (auto simp: find_None_iff)
    then have old_id: "rowid old = j"
      by (auto simp: find_Some_iff)
    have "find (\<lambda>r. rowid r = j) (map f (rows t))
            = map_option f (find (\<lambda>r. rowid r = j) (rows t))"
      by (rule find_map_keeping) (simp add: f(1))
    then have get: "getExpenseById j s' = (Inr (Some (f old)), s')"
      using getExpenseById_no_fault [OF s', of j] old by (simp add: t'_def)
    define rs where "rs = order_by date_desc_id_desc (rows t')"
    have all: "getAllExpenses s' = (Inr rs, s')"
      using getAllExpenses_no_fault [OF s'] by (simp add: rs_def)
    have members: "set rs = f ` set (rows t)"
      by (simp add: rs_def set_order_by t'_def)
    have "\<exists>x \<in> set rs. rowid x = j"
      using members present f(1) by auto
    moreover have "\<forall>x \<in> set rs. rowid x = j \<longrightarrow> description x = Some []"
      using members f by auto
    ultimately show ?thesis
      using upd get all f(2) [OF old_id] by blast
  qed
  from added updated show ?thesis by blast
qed

theorem absent_description_stored_empty_witness:
  "db three_expenses \<and> faults three_expenses = [] \<and> description lunch = None
   \<and> (\<exists>i s'. addExpense lunch three_expenses = (Inr i, s')
         \<and> (\<exists>r. getExpenseById i s' = (Inr (Some r), s') \<and> description r = Some []))
   \<and> (\<exists>s'. updateExpense 2 lunch three_expenses = (Inr (), s')
         \<and> (\<exists>r. getExpenseById 2 s' = (Inr (Some r), s') \<and> description r = Some []))"
proof -
  note facts = three_expenses_facts
  have none: "description lunch = None" by (simp add: lunch_def)
  note main = absent_description_stored_empty [OF facts none]
  have present: "(2::int) \<in> rowid ` set (rows (the (expenses (disk three_expenses))))"
    by (simp add: facts(3))
  from main [THEN conjunct1]
  have part1: "\<exists>i s'. addExpense lunch three_expenses = (Inr i, s')
         \<and> (\<exists>r. getExpenseById i s' = (Inr (Some r), s') \<and> description r = Some [])"
    by blast
  from main [THEN conjunct2, THEN bspec, of 2] present
  have part2: "\<exists>s'. updateExpense 2 lunch three_expenses = (Inr (), s')
         \<and> (\<exists>r. getExpenseById 2 s' = (Inr (Some r), s') \<and> description r = Some [])"
    by (simp add: facts(3)) blast
  from facts(1,2) none part1 part2 show ?thesis by blast
qed

subsection \<open>Calls before the handle is set\<close>

text \<open>
  Claim C7, as the code has it. While \<^verbatim>\<open>this.db\<close> is null, that is until
  \<^verbatim>\<open>openDatabaseAsync\<close> has returned, each of \<^verbatim>\<open>addExpense\<close>, \<^verbatim>\<open>getAllExpenses\<close>,
  \<^verbatim>\<open>getExpenseById\<close>, \<^verbatim>\<open>updateExpense\<close>, \<^verbatim>\<open>deleteExpense\<close>, \<^verbatim>\<open>searchExpenses\<close>,
  \<^verbatim>\<open>getExpenseStats\<close>, \<^verbatim>\<open>getExpensesByDateRange\<close>, \<^verbatim>\<open>clearAllData\<close> and \<^verbatim>\<open>resetDatabase\<close>
  throws the error "Database not initialized" and leaves the whole state, the file
  included, as it was.
\<close>

theorem uninitialized_operations_fail:
  fixes s :: "('m::{plus,zero,ord}) service"
  assumes "\<not> db s"
  shows "addExpense e s = (Inl Database_not_initialized, s)
       \<and> getAllExpenses s = (Inl Database_not_initialized, s)
       \<and> getExpenseById i s = (Inl Database_not_initialized, s)
       \<and> updateExpense i e s = (Inl Database_not_initialized, s)
       \<and> deleteExpense i s = (Inl Database_not_initialized, s)
       \<and> searchExpenses q s = (Inl Database_not_initialized, s)
       \<and> getExpenseStats strftime_ym s = (Inl Database_not_initialized, s)
       \<and> getExpensesByDateRange startDate endDate s = (Inl Database_not_initialized, s)
       \<and> clearAllData s = (Inl Database_not_initialized, s)
       \<and> resetDatabase s = (Inl Database_not_initialized, s)"
  using assms
  by (simp add: addExpense_def getAllExpenses_def getExpenseById_def updateExpense_def
      deleteExpense_def searchExpenses_def getExpenseStats_def getExpensesByDateRange_def
      clearAllData_def resetDatabase_def)

theorem uninitialized_operations_fail_witness:
  "\<not> db fresh_install
   \<and> addExpense lunch fresh_install = (Inl Database_not_initialized, fresh_install)
   \<and> getAllExpenses fresh_install = (Inl Database_not_initialized, fresh_install)
   \<and> resetDatabase fresh_install = (Inl Database_not_initialized, fresh_install)"
proof -
  have closed: "\<not> db fresh_install" by (simp add: fresh_install_def)
  from uninitialized_operations_fail [OF closed, of lunch] closed show ?thesis by simp
qed

text \<open>
  Claim C7 as stated fails between the opening of the file and the end of the schema
  step. \<^verbatim>\<open>initializeDatabase\<close> sets the handle before it creates the table; when the
  creation throws, the handle stays set. A call made after that is not refused as
  uninitialized: on a first launch \<^verbatim>\<open>getAllExpenses\<close> throws the engine's "no such table",
  and on a later launch \<^verbatim>\<open>clearAllData\<close> succeeds and empties the table.
\<close>

theorem uninitialized_operations_fail_counterexample:
  "fst (initializeDatabase failing_install) = Inl Engine_failure
   \<and> fst (getAllExpenses (snd (initializeDatabase failing_install))) = Inl No_such_table
   \<and> fst (initializeDatabase failing_relaunch) = Inl Engine_failure
   \<and> fst (clearAllData (snd (initializeDatabase failing_relaunch))) = Inr ()
   \<and> expenses (disk (snd (clearAllData (snd (initializeDatabase failing_relaunch))))) =
       Some \<lparr>created_at_col = Default_now, rows = []\<rparr>
   \<and> expenses (disk failing_relaunch) \<noteq> Some \<lparr>created_at_col = Default_now, rows = []\<rparr>"
  by code_simp

subsection \<open>The ids that addExpense assigns\<close>

lemma addExpense_assigned:
  assumes "addExpense e s = (Inr i, s')"
  shows "sequence_value (disk s) < i \<and> sequence_value (disk s') = i"
proof -
  from assms obtain t where t: "expenses (disk s) = Some t" and i: "i = next_rowid (disk s) t"
    and s': "sqlite_sequence (disk s') = Some i"
    by (auto simp: addExpense_def rethrow_def engine_call_def insert_expense_def Let_def
        split: if_splits list.splits bool.splits option.splits sum.splits)
  from i next_rowid_above_sequence [of "disk s" t] s' show ?thesis
    by (simp add: sequence_value_def)
qed

lemma rethrow_disk: "disk (snd (rethrow msg r)) = disk (snd r)"
  by (cases r) (auto simp: rethrow_def log_def split: sum.splits)

lemma addExpense_failed:
  assumes "addExpense e s = (Inl x, s')"
  shows "disk s' = disk s"
  using assms
  by (auto simp: addExpense_def rethrow_def engine_call_def log_def
      split: if_splits list.splits bool.splits sum.splits)

lemma engine_call_sequence:
  assumes "\<And>d v d'. stmt d = Inr (v, d') \<Longrightarrow> sqlite_sequence d' = sqlite_sequence d"
  shows "sqlite_sequence (disk (snd (engine_call stmt s))) = sqlite_sequence (disk s)"
  using assms
  by (auto simp: engine_call_def split: list.splits bool.splits sum.splits)

lemma updateExpense_sequence:
  "sequence_value (disk (snd (updateExpense i e s))) = sequence_value (disk s)"
proof -
  have "sqlite_sequence (disk (snd (updateExpense i e s))) = sqlite_sequence (disk s)"
    unfolding updateExpense_def
    by (auto simp: rethrow_disk update_by_id_def split: option.splits
        intro!: engine_call_sequence)
  then show ?thesis by (simp add: sequence_value_def)
qed

lemma deleteExpense_sequence:
  "sequence_value (disk (snd (deleteExpense i s))) = sequence_value (disk s)"
proof -
  have "sqlite_sequence (disk (snd (deleteExpense i s))) = sqlite_sequence (disk s)"
    unfolding deleteExpense_def
    by (auto simp: rethrow_disk delete_by_id_def split: option.splits
        intro!: engine_call_sequence)
  then show ?thesis by (simp add: sequence_value_def)
qed

lemma clearAllData_sequence:
  "sequence_value (disk (snd (clearAllData s))) = sequence_value (disk s)"
proof -
  have "sqlite_sequence (disk (snd (clearAllData s))) = sqlite_sequence (disk s)"
    unfolding clearAllData_def
    by (auto simp: rethrow_disk delete_all_def split: option.splits
        intro!: engine_call_sequence)
  then show ?thesis by (simp add: sequence_value_def)
qed

lemma assigned_ids_above_sequence:
  "j \<in> set (assigned_ids ops s) \<Longrightarrow> sequence_value (disk s) < j"
proof (induction ops arbitrary: s)
  case Nil
  then show ?case by simp
next
  case (Cons op ops)
  show ?case
  proof (cases op)
    case (Add e)
    obtain r s' where run: "addExpense e s = (r, s')" by (cases "addExpense e s")
    show ?thesis
    proof (cases r)
      case (Inl x)
      with run Add Cons.prems have "j \<in> set (assigned_ids ops s')" by simp
      then have "sequence_value (disk s') < j" by (rule Cons.IH)
      with addExpense_failed run Inl show ?thesis by metis
    next
      case (Inr i)
      with run have i: "sequence_value (disk s) < i" "sequence_value (disk s') = i"
        using addExpense_assigned by blast+
      from run Add Inr Cons.prems have "j = i \<or> j \<in> set (assigned_ids ops s')" by simp
      then show ?thesis
      proof
        assume "j = i" with i show ?thesis by simp
      next
        assume "j \<in> set (assigned_ids ops s')"
        then have "sequence_value (disk s') < j" by (rule Cons.IH)
        with i show ?thesis by simp
      qed
    qed
  next
    case (Update i e)
    with Cons.prems have "j \<in> set (assigned_ids ops (snd (updateExpense i e s)))" by simp
    then have "sequence_value (disk (snd (updateExpense i e s))) < j" by (rule Cons.IH)
    then show ?thesis by (simp add: updateExpense_sequence)
  next
    case (Delete i)
    with Cons.prems have "j \<in> set (assigned_ids ops (snd (deleteExpense i s)))" by simp
    then have "sequence_value (disk (snd (deleteExpense i s))) < j" by (rule Cons.IH)
    then show ?thesis by (simp add: deleteExpense_sequence)
  next
    case Clear
    with Cons.prems have "j \<in> set (assigned_ids ops (snd (clearAllData s)))" by simp
    then have "sequence_value (disk (snd (clearAllData s))) < j" by (rule Cons.IH)
    then show ?thesis by (simp add: clearAllData_sequence)
  qed
qed

text \<open>
  Claim C8, as the code has it. Along every run of \<^verbatim>\<open>addExpense\<close>, \<^verbatim>\<open>updateExpense\<close>,
  \<^verbatim>\<open>deleteExpense\<close> and \<^verbatim>\<open>clearAllData\<close> calls, from any state of the store and whatever
  calls the engine rejects, the ids that \<^verbatim>\<open>addExpense\<close> returns increase strictly; so no
  id is returned twice, also after a deletion or after the table was cleared.
\<close>

theorem assigned_ids_increase:
  "sorted_wrt (<) (assigned_ids ops s) \<and> distinct (assigned_ids ops s)"
proof -
  have "sorted_wrt (<) (assigned_ids ops s)"
  proof (induction ops arbitrary: s)
    case Nil
    then show ?case by simp
  next
    case (Cons op ops)
    show ?case
    proof (cases op)
      case (Add e)
      obtain r s' where run: "addExpense e s = (r, s')" by (cases "addExpense e s")
      show ?thesis
      proof (cases r)
        case (Inl x)
        with run Add Cons.IH [of s'] show ?thesis by simp
      next
        case (Inr i)
        with run have "sequence_value (disk s') = i"
          using addExpense_assigned by blast
        then have "\<forall>j \<in> set (assigned_ids ops s'). i < j"
          using assigned_ids_above_sequence [of _ ops s'] by auto
        with run Add Inr Cons.IH [of s'] show ?thesis by simp
      qed
    qed (use Cons.IH in simp_all)
  qed
  then show ?thesis by (simp add: strict_sorted_iff)
qed

theorem assigned_ids_increase_witness:
  "assigned_ids [Add lunch, Delete 1, Add taxi, Clear, Update 2 lunch, Add cinema] initialized
     = [1, 2, 3]
   \<and> sorted_wrt (<)
       (assigned_ids [Add lunch, Delete 1, Add taxi, Clear, Update 2 lunch, Add cinema]
          initialized)"
proof (rule conjI)
  show "assigned_ids [Add lunch, Delete 1, Add taxi, Clear, Update 2 lunch, Add cinema]
          initialized = [1, 2, 3]"
    by code_simp
  show "sorted_wrt (<)
       (assigned_ids [Add lunch, Delete 1, Add taxi, Clear, Update 2 lunch, Add cinema]
          initialized)"
    by (rule assigned_ids_increase [THEN conjunct1])
qed

text \<open>
  Claim C8 as stated fails across \<^verbatim>\<open>resetDatabase\<close>: dropping the table deletes its row of
  \<^verbatim>\<open>sqlite_sequence\<close>, and the first record added to the new table gets the id 1 again.
\<close>

theorem assigned_ids_increase_counterexample:
  "fst (addExpense lunch initialized) = Inr 1
   \<and> fst (resetDatabase (snd (addExpense lunch initialized))) = Inr ()
   \<and> fst (addExpense taxi (snd (resetDatabase (snd (addExpense lunch initialized))))) = Inr 1"
  by code_simp

subsection \<open>The schema repair\<close>

lemma ensureCreatedAtColumn_returns: "fst (ensureCreatedAtColumn s) = Inr ()"
  by (simp add: ensureCreatedAtColumn_def split: prod.splits sum.splits)

lemma create_table_if_not_exists_succeeds: "\<exists>d'. create_table_if_not_exists d = Inr ((), d')"
  by (simp add: create_table_if_not_exists_def split: option.splits)

lemma engine_call_accepted:
  assumes "stmt (disk s) = Inr (v, d')" and "faults s = [] \<or> hd (faults s) = False"
  shows "engine_call stmt s = (Inr v, s\<lparr>faults := tl (faults s), disk := d'\<rparr>)"
  using assms by (auto simp: engine_call_def split: list.splits bool.splits)

lemma initializeDatabase_completes:
  assumes "True \<notin> set (take 2 (faults s))"
  shows "fst (initializeDatabase s) = Inr ()"
proof -
  have first: "faults s = [] \<or> hd (faults s) = False"
    using assms by (cases "faults s") auto
  define s1 where "s1 = s\<lparr>faults := tl (faults s), disk := disk s\<rparr>"
  have opened: "openDatabaseAsync s = (Inr (), s1)"
    unfolding openDatabaseAsync_def s1_def using first by (intro engine_call_accepted) auto
  have second: "faults (s1\<lparr>db := True\<rparr>) = [] \<or> hd (faults (s1\<lparr>db := True\<rparr>)) = False"
    using assms by (cases "faults s"; cases "tl (faults s)") (auto simp: s1_def)
  obtain d' where d': "create_table_if_not_exists (disk (s1\<lparr>db := True\<rparr>)) = Inr ((), d')"
    using create_table_if_not_exists_succeeds by blast
  define s2 where "s2 = (s1\<lparr>db := True\<rparr>)\<lparr>faults := tl (faults (s1\<lparr>db := True\<rparr>)), disk := d'\<rparr>"
  have created: "engine_call create_table_if_not_exists (s1\<lparr>db := True\<rparr>) = (Inr (), s2)"
    unfolding s2_def using d' second by (rule engine_call_accepted)
  obtain s3 where repaired: "ensureCreatedAtColumn s2 = (Inr (), s3)"
    using ensureCreatedAtColumn_returns [of s2] by (cases "ensureCreatedAtColumn s2") auto
  show ?thesis
    by (simp add: initializeDatabase_def and_then_def rethrow_def opened created repaired)
qed

text \<open>
  Claim C9. From every state of the store and whatever calls the engine rejects,
  \<^verbatim>\<open>ensureCreatedAtColumn\<close> returns normally. When its handle is set and its \<^verbatim>\<open>try\<close> block
  throws, it runs \<^verbatim>\<open>recreateTableWithCreatedAt\<close> after logging the error, and ends in the
  state that the reconstruction leaves, with one more line on the console when the
  reconstruction has thrown too. So \<^verbatim>\<open>initializeDatabase\<close> returns normally whenever the
  engine accepts the opening of the file and the \<^verbatim>\<open>CREATE TABLE IF NOT EXISTS\<close>, whatever
  happens in the repair.
\<close>

theorem ensureCreatedAtColumn_never_throws:
  "fst (ensureCreatedAtColumn s) = Inr ()
   \<and> (db s \<longrightarrow>
        (\<forall>e s1. ensureCreatedAtColumn_try s = (Inl e, s1) \<longrightarrow>
           snd (ensureCreatedAtColumn s) =
             (case recreateTableWithCreatedAt
                     (log ''Attempting table recreation...''
                        (log ''Error ensuring created_at column:'' s1)) of
                (Inr _, s2) \<Rightarrow> s2
              | (Inl _, s2) \<Rightarrow> log ''Error recreating table:'' s2)))
   \<and> (True \<notin> set (take 2 (faults s)) \<longrightarrow> fst (initializeDatabase s) = Inr ())"
proof (intro conjI impI allI)
  show "fst (ensureCreatedAtColumn s) = Inr ()"
    by (rule ensureCreatedAtColumn_returns)
next
  fix e s1
  assume "db s" and "ensureCreatedAtColumn_try s = (Inl e, s1)"
  then show "snd (ensureCreatedAtColumn s) =
             (case recreateTableWithCreatedAt
                     (log ''Attempting table recreation...''
                        (log ''Error ensuring created_at column:'' s1)) of
                (Inr _, s2) \<Rightarrow> s2
              | (Inl _, s2) \<Rightarrow> log ''Error recreating table:'' s2)"
    by (simp add: ensureCreatedAtColumn_def split: prod.splits sum.splits)
next
  assume "True \<notin> set (take 2 (faults s))"
  then show "fst (initializeDatabase s) = Inr ()"
    by (rule initializeDatabase_completes)
qed

theorem ensureCreatedAtColumn_never_throws_witness:
  "db repair_rejected
   \<and> fst (ensureCreatedAtColumn_try repair_rejected) = Inl Engine_failure
   \<and> fst (recreateTableWithCreatedAt
            (log ''Attempting table recreation...''
               (log ''Error ensuring created_at column:''
                  (snd (ensureCreatedAtColumn_try repair_rejected))))) = Inl Engine_failure
   \<and> fst (ensureCreatedAtColumn repair_rejected) = Inr ()
   \<and> console (snd (ensureCreatedAtColumn repair_rejected)) =
        [''Adding created_at column to expenses table'', ''Error ensuring created_at column:'',
         ''Attempting table recreation...'', ''Error recreating table:'']
   \<and> True \<notin> set (take 2 (faults launch_repair_rejected))
   \<and> fst (initializeDatabase launch_repair_rejected) = Inr ()"
proof -
  have hyps: "db repair_rejected"
    "fst (ensureCreatedAtColumn_try repair_rejected) = Inl Engine_failure"
    "fst (recreateTableWithCreatedAt
            (log ''Attempting table recreation...''
               (log ''Error ensuring created_at column:''
                  (snd (ensureCreatedAtColumn_try repair_rejected))))) = Inl Engine_failure"
    "console (snd (ensureCreatedAtColumn repair_rejected)) =
        [''Adding created_at column to expenses table'', ''Error ensuring created_at column:'',
         ''Attempting table recreation...'', ''Error recreating table:'']"
    "True \<notin> set (take 2 (faults launch_repair_rejected))"
    by code_simp+
  have "fst (ensureCreatedAtColumn repair_rejected) = Inr ()"
    using ensureCreatedAtColumn_never_throws [of repair_rejected] by (rule conjunct1)
  moreover have "fst (initializeDatabase launch_repair_rejected) = Inr ()"
    using ensureCreatedAtColumn_never_throws [of launch_repair_rejected] hyps(5) by blast
  ultimately show ?thesis using hyps by blast
qed

subsection \<open>Searching\<close>





























subsection \<open>Statistics\<close>

lemma getExpenseStats_no_fault:
  fixes s :: "('m::{plus,zero,ord}) service"
  assumes "db s" and "faults s = []" and "expenses (disk s) = Some t"
  shows "getExpenseStats strftime_ym s =
     (Inr \<lparr>totalExpenses =
              (case rows t of [] \<Rightarrow> 0 | r # rs \<Rightarrow> foldl (+) (amount r) (map amount rs)),
            categorySums =
              foldl assign Map.empty
                (order_by (\<lambda>a b. snd b \<le> snd a) (group_sums category amount (rows t))),
            monthlyData =
              take 12 (order_by month_desc
                 (group_sums (\<lambda>r. strftime_ym (date r)) amount (rows t)))\<rparr>, s)"
  using assms
  by (simp add: getExpenseStats_def engine_call_no_fault and_then_def rethrow_def
      select_sum_def select_sum_by_category_def select_sum_by_month_def
      split: list.splits)

text \<open>The groups of \<^verbatim>\<open>GROUP BY\<close> have distinct keys.\<close>

lemma keys_add_to_group: "set (map fst (add_to_group k v gs)) = insert k (set (map fst gs))"
proof (induction gs)
  case Nil
  then show ?case by simp
next
  case (Cons g gs)
  obtain k' t where g: "g = (k', t)" by (cases g)
  show ?case
  proof (cases "k' = k")
    case True
    with g show ?thesis by auto
  next
    case False
    with g Cons show ?thesis by (simp add: insert_commute)
  qed
qed

lemma distinct_add_to_group:
  "distinct (map fst gs) \<Longrightarrow> distinct (map fst (add_to_group k v gs))"
proof (induction gs)
  case Nil
  then show ?case by simp
next
  case (Cons g gs)
  obtain k' t where g: "g = (k', t)" by (cases g)
  show ?case
  proof (cases "k' = k")
    case True
    with g Cons.prems show ?thesis by simp
  next
    case False
    with g Cons keys_add_to_group [of k v gs] show ?thesis by simp
  qed
qed

lemma group_sums_snoc:
  "group_sums key val (rs @ [r]) = add_to_group (key r) (val r) (group_sums key val rs)"
  by (simp add: group_sums_def)

lemma distinct_group_sums: "distinct (map fst (group_sums key val rs))"
  by (induction rs rule: rev_induct)
     (simp_all add: group_sums_snoc distinct_add_to_group, simp add: group_sums_def)

lemma map_of_add_to_group:
  "map_of (add_to_group k v gs) =
     (map_of gs)(k \<mapsto> (case map_of gs k of None \<Rightarrow> v | Some t \<Rightarrow> t + v))"
  by (induction gs) (auto simp: fun_eq_iff)

text \<open>Additions that do not round are additions of rationals.\<close>

lemma plus_exact:
  "representable (a + b) \<Longrightarrow> Binary64 a + Binary64 b = Binary64 (a + b)"
  by (simp add: plus_binary64_def representable_def)

lemma foldl_plus_exact:
  "(\<forall>j \<le> length xs. representable (a + sum_list (take j xs))) \<Longrightarrow>
   foldl (+) (Binary64 a) (map Binary64 xs) = Binary64 (a + sum_list xs)"
proof (induction xs arbitrary: a)
  case Nil
  then show ?case by simp
next
  case (Cons x xs)
  have "representable (a + sum_list (take 1 (x # xs)))"
    using Cons.prems by (metis One_nat_def Suc_leI length_Cons zero_less_Suc)
  then have first: "Binary64 a + Binary64 x = Binary64 (a + x)"
    by (simp add: plus_exact)
  have "\<forall>j \<le> length xs. representable ((a + x) + sum_list (take j xs))"
  proof (intro allI impI)
    fix j assume "j \<le> length xs"
    then have "representable (a + sum_list (take (Suc j) (x # xs)))"
      using Cons.prems by (metis Suc_le_mono length_Cons)
    then show "representable ((a + x) + sum_list (take j xs))"
      by (simp add: add.assoc)
  qed
  then have "foldl (+) (Binary64 (a + x)) (map Binary64 xs) = Binary64 ((a + x) + sum_list xs)"
    by (rule Cons.IH)
  with first show ?case by (simp add: add.assoc)
qed

lemma exact_sums_butlast: "exact_sums v (rs @ [r]) \<Longrightarrow> exact_sums v rs"
  unfolding exact_sums_def
proof (intro allI)
  fix P j
  assume all: "\<forall>P j. representable (sum_list (map v (filter P (take j (rs @ [r])))))"
  have "take (min j (length rs)) (rs @ [r]) = take j rs"
    by (simp add: min_def)
  with all [rule_format, of P "min j (length rs)"]
  show "representable (sum_list (map v (filter P (take j rs))))" by simp
qed

lemma exact_sums_from_subseqs:
  assumes "\<forall>ys \<in> set (subseqs (map v rs)). representable (sum_list ys)"
  shows "exact_sums v rs"
  unfolding exact_sums_def
proof (intro allI)
  fix P j
  have "subseq (filter P (take j rs)) (take j rs)" by simp
  moreover have "subseq (take j rs) rs"
    using take_is_prefix by (rule prefix_imp_subseq)
  ultimately have "subseq (filter P (take j rs)) rs"
    by (rule subseq_order.trans)
  then have "subseq (map v (filter P (take j rs))) (map v rs)"
    by (rule subseq_map)
  with assms show "representable (sum_list (map v (filter P (take j rs))))"
    by simp
qed

lemma exact_sums_all: "exact_sums v rs \<Longrightarrow> representable (sum_list (map v (filter P rs)))"
  unfolding exact_sums_def by (metis order_refl take_all)

lemma group_sums_exact:
  fixes rs :: "binary64 expense list"
  assumes "exact_sums (\<lambda>r. value_of (amount r)) rs"
  shows "map_of (group_sums category amount rs) =
           (\<lambda>k. if k \<in> category ` set rs
                then Some (Binary64 (sum_list (map (\<lambda>r. value_of (amount r))
                                               (filter (\<lambda>r. category r = k) rs))))
                else None)"
  using assms
proof (induction rs rule: rev_induct)
  case Nil
  then show ?case by (simp add: group_sums_def)
next
  case (snoc r rs)
  let ?v = "\<lambda>r. value_of (amount r)"
  let ?tot = "\<lambda>rs k. sum_list (map ?v (filter (\<lambda>r. category r = k) rs))"
  have IH: "map_of (group_sums category amount rs) =
           (\<lambda>k. if k \<in> category ` set rs then Some (Binary64 (?tot rs k)) else None)"
    using snoc.IH exact_sums_butlast [OF snoc.prems] by simp
  have rep: "representable (?tot (rs @ [r]) (category r))"
    using snoc.prems by (rule exact_sums_all)
  have amt: "amount r = Binary64 (?v r)" by simp
  have new: "(case map_of (group_sums category amount rs) (category r) of
               None \<Rightarrow> amount r | Some t \<Rightarrow> t + amount r)
             = Binary64 (?tot (rs @ [r]) (category r))"
  proof (cases "category r \<in> category ` set rs")
    case True
    then have "map_of (group_sums category amount rs) (category r)
                 = Some (Binary64 (?tot rs (category r)))"
      by (simp add: IH)
    moreover have "Binary64 (?tot rs (category r)) + Binary64 (?v r)
                     = Binary64 (?tot rs (category r) + ?v r)"
      using rep by (intro plus_exact) simp
    ultimately show ?thesis by simp
  next
    case False
    then have none: "map_of (group_sums category amount rs) (category r) = None"
      by (simp add: IH)
    from False have "\<forall>x \<in> set rs. category x \<noteq> category r"
      by (metis image_eqI)
    then have "filter (\<lambda>x. category x = category r) rs = []"
      by (simp add: filter_empty_conv)
    with none show ?thesis by simp
  qed
  show ?case
    unfolding group_sums_snoc map_of_add_to_group new
    by (auto simp: IH fun_eq_iff)
qed

lemma sum_filter_split:
  fixes v :: "'r \<Rightarrow> rat"
  assumes "\<And>r. \<not> (P r \<and> Q r)"
  shows "sum_list (map v (filter (\<lambda>r. P r \<or> Q r) rs))
           = sum_list (map v (filter P rs)) + sum_list (map v (filter Q rs))"
  using assms by (induction rs) auto

lemma sum_of_totals:
  fixes v :: "'r \<Rightarrow> rat"
  assumes "distinct ks"
  shows "sum_list (map (\<lambda>k. sum_list (map v (filter (\<lambda>r. key r = k) rs))) ks)
           = sum_list (map v (filter (\<lambda>r. key r \<in> set ks) rs))"
  using assms
proof (induction ks)
  case Nil
  then show ?case by simp
next
  case (Cons k ks)
  then have fresh: "k \<notin> set ks" and rest: "distinct ks" by auto
  have "sum_list (map v (filter (\<lambda>r. key r = k \<or> key r \<in> set ks) rs))
          = sum_list (map v (filter (\<lambda>r. key r = k) rs))
            + sum_list (map v (filter (\<lambda>r. key r \<in> set ks) rs))"
    using fresh by (intro sum_filter_split) auto
  with Cons.IH [OF rest] show ?case by simp
qed

lemma foldl_assign:
  "''__proto__'' \<notin> fst ` set gs \<Longrightarrow> foldl assign obj gs = obj ++ map_of (rev gs)"
  by (induction gs arbitrary: obj) (auto simp: assign_def map_add_upd_left)

lemma normalise_numeral:
  "normalise (numeral k) m u =
     (if m < 2 ^ 52 \<and> 1 / 2 ^ least_exponent < u
      then normalise (pred_numeral k) (m * 2) (u / 2)
      else if 2 ^ 53 \<le> m then normalise (pred_numeral k) (m / 2) (u * 2)
      else (m, u))"
  by (simp add: numeral_eq_Suc)

lemma floor_rat_numeral: "\<lfloor>(numeral a :: rat) / numeral b\<rfloor> = numeral a div numeral b"
  using floor_divide_of_int_eq [of "numeral a" "numeral b", where ?'a = rat] by simp

lemmas double_eval =
  plus_binary64_def zero_binary64_def less_eq_binary64_def round64_def normalise_numeral
  round_half_even_def Let_def floor_rat_numeral least_exponent_def

lemma ledger_facts:
  "db (ledger rs)" "faults (ledger rs) = []"
  "expenses (disk (ledger rs)) = Some \<lparr>created_at_col = Default_now, rows = rs\<rparr>"
  by (simp_all add: ledger_def)

lemma rounding_sums:
  "tenth + tenth + eleven_tenths = Binary64 (5854679515581645 / 4503599627370496)"
  "tenth + eleven_tenths = Binary64 (1351079888211149 / 1125899906842624)"
  "0 + (tenth + eleven_tenths) + tenth = Binary64 (2927339757790823 / 2251799813685248)"
  "0 + tenth + (tenth + eleven_tenths) = Binary64 (2927339757790823 / 2251799813685248)"
  by (simp_all add: tenth_def eleven_tenths_def double_eval)

lemma normalise_product: "normalise fuel m u = (m', u') \<Longrightarrow> m' * u' = m * u"
  by (induction fuel m u rule: normalise.induct) (auto split: if_splits)

lemma normalise_integral:
  assumes "0 < i" and "i < 2 ^ 53" and "m = of_int i / 2 ^ k" and "u = 1 / 2 ^ j"
      and "j + k \<le> least_exponent" and "k \<le> fuel"
  shows "fst (normalise fuel m u) \<in> \<int>"
  using assms
proof (induction fuel arbitrary: i m u k j)
  case 0
  then show ?case by simp
next
  case (Suc fuel)
  have m_less: "m < 2 ^ 53"
  proof -
    have "m \<le> of_int i"
      using Suc.prems(1,3) by (simp add: divide_le_eq_1 pos_divide_le_eq mult_le_cancel_left1)
    also have "\<dots> < 2 ^ 53"
      using Suc.prems(2) by (metis of_int_less_numeral_power_cancel_iff)
    finally show ?thesis .
  qed
  show ?case
  proof (cases "m < 2 ^ 52 \<and> 1 / 2 ^ least_exponent < u")
    case True
    then have "(2::rat) ^ j < 2 ^ least_exponent"
      using Suc.prems(4) by (simp add: field_simps)
    then have j: "j < least_exponent"
      by (simp add: power_strict_increasing_iff)
    have next_u: "u / 2 = 1 / 2 ^ Suc j"
      using Suc.prems(4) by simp
    show ?thesis
    proof (cases k)
      case 0
      have "fst (normalise fuel (m * 2) (u / 2)) \<in> \<int>"
      proof (rule Suc.IH [of "2 * i" _ 0 _ "Suc j"])
        show "0 < 2 * i" using Suc.prems(1) by simp
        have "rat_of_int i < 2 ^ 52" using True Suc.prems(3) 0 by simp
        then have "i < 2 ^ 52" by (metis of_int_less_numeral_power_cancel_iff)
        then show "2 * i < 2 ^ 53" by simp
        show "m * 2 = rat_of_int (2 * i) / 2 ^ 0" using Suc.prems(3) 0 by simp
        show "u / 2 = 1 / 2 ^ Suc j" by (rule next_u)
        show "Suc j + 0 \<le> least_exponent" using j by simp
        show "0 \<le> fuel" by simp
      qed
      with True show ?thesis by simp
    next
      case (Suc k')
      have "fst (normalise fuel (m * 2) (u / 2)) \<in> \<int>"
      proof (rule Suc.IH [of i _ k' _ "Suc j"])
        show "0 < i" "i < 2 ^ 53" by (rule Suc.prems)+
        show "m * 2 = rat_of_int i / 2 ^ k'" using Suc.prems(3) Suc by simp
        show "u / 2 = 1 / 2 ^ Suc j" by (rule next_u)
        show "Suc j + k' \<le> least_exponent" using Suc.prems(5) Suc by simp
        show "k' \<le> fuel" using Suc.prems(6) Suc by simp
      qed
      with True show ?thesis by simp
    qed
  next
    case False
    have stop: "normalise (Suc fuel) m u = (m, u)"
      using m_less by (simp only: normalise.simps if_not_P [OF False]) simp
    have "k = 0"
    proof (rule ccontr)
      assume "k \<noteq> 0"
      then have k: "1 \<le> k" by simp
      from False have "2 ^ 52 \<le> m \<or> u \<le> 1 / 2 ^ least_exponent" by auto
      then show False
      proof
        assume "u \<le> 1 / 2 ^ least_exponent"
        then have "(2::rat) ^ least_exponent \<le> 2 ^ j"
          using Suc.prems(4) by (simp add: field_simps)
        then have "least_exponent \<le> j"
          by (simp add: power_increasing_iff)
        with k Suc.prems(5) show False by simp
      next
        assume big: "2 ^ 52 \<le> m"
        have two: "(2::rat) ^ 1 \<le> 2 ^ k" using k by (intro power_increasing) simp_all
        have "0 < m" using Suc.prems(1,3) by simp
        then have "m * 2 ^ 1 \<le> m * 2 ^ k"
          using two by (intro mult_left_mono) simp_all
        moreover have "m * 2 ^ k = rat_of_int i"
          using Suc.prems(3) by simp
        ultimately have "m * 2 \<le> rat_of_int i" by simp
        with big have "(2::rat) ^ 53 \<le> rat_of_int i" by simp
        then have "2 ^ 53 \<le> i" by (metis of_int_numeral_le_iff numeral_power_le_of_int_cancel_iff)
        with Suc.prems(2) show False by simp
      qed
    qed
    then show ?thesis using stop Suc.prems(3) by simp
  qed
qed

lemma round_half_even_integral: "m \<in> \<int> \<Longrightarrow> rat_of_int (round_half_even m) = m"
  by (auto simp: round_half_even_def Let_def elim!: Ints_cases)

lemma representable_grid:
  assumes "x * 2 ^ k \<in> \<int>" and "\<bar>x * 2 ^ k\<bar> < 2 ^ 53" and "k \<le> least_exponent"
  shows "representable x"
proof (cases "x = 0")
  case True
  then show ?thesis by (simp add: representable_def round64_def)
next
  case False
  from assms(1) obtain n where n: "x * 2 ^ k = rat_of_int n"
    by (auto elim: Ints_cases)
  define i where "i = \<bar>n\<bar>"
  have size: "\<bar>x\<bar> = rat_of_int i / 2 ^ k"
  proof -
    have "\<bar>x\<bar> * 2 ^ k = \<bar>x * 2 ^ k\<bar>" by (simp add: abs_mult)
    also have "\<dots> = rat_of_int i" by (simp add: n i_def)
    finally show ?thesis by (simp add: field_simps)
  qed
  have pos: "0 < i"
    using False size by (cases "i = 0") (auto simp: i_def)
  have "rat_of_int i < 2 ^ 53"
    using assms(2) by (simp add: n i_def)
  then have small: "i < 2 ^ 53"
    by (metis of_int_less_numeral_power_cancel_iff)
  obtain m' u' where run: "normalise 2200 \<bar>x\<bar> 1 = (m', u')"
    by (cases "normalise 2200 \<bar>x\<bar> 1")
  have "fst (normalise 2200 \<bar>x\<bar> 1) \<in> \<int>"
    using pos small size
  proof (rule normalise_integral [where j = 0])
    show "(1::rat) = 1 / 2 ^ 0" by simp
    show "0 + k \<le> least_exponent" using assms(3) by simp
    show "k \<le> 2200" using assms(3) by (simp add: least_exponent_def)
  qed
  then have "m' \<in> \<int>" by (simp add: run)
  then have "rat_of_int (round_half_even m') = m'" by (rule round_half_even_integral)
  moreover have "m' * u' = \<bar>x\<bar>"
    using normalise_product [OF run] by simp
  ultimately have "round64 x = sgn x * \<bar>x\<bar>"
    using False by (simp add: round64_def run mult.assoc)
  moreover have "sgn x * \<bar>x\<bar> = x"
    by (simp add: sgn_mult_abs)
  ultimately show ?thesis by (simp add: representable_def)
qed

lemma getExpenseStats_total:
  fixes s :: "('m::{plus,zero,ord}) service"
  assumes "db s" and "faults s = []" and "expenses (disk s) = Some t"
    and "getExpenseStats strftime_ym s = (Inr stats, s)"
  shows "totalExpenses stats
           = (case rows t of [] \<Rightarrow> 0 | r # rs \<Rightarrow> foldl (+) (amount r) (map amount rs))"
proof -
  from assms(4) have "stats = projr (fst (getExpenseStats strftime_ym s))"
    by simp
  then show ?thesis
    by (simp only: getExpenseStats_no_fault [OF assms(1-3)] fst_conv sum.sel
        ExpenseStats.select_convs)
qed

text \<open>
  Claim C4, as the code has it, with the amounts as IEEE doubles whose addition rounds.
  On a store whose handle is open, whose table exists and whose engine rejects no call:
  over the empty table \<^verbatim>\<open>totalExpenses\<close> is \<open>0\<close>; and over a table that holds a record, has
  no category named \<^verbatim>\<open>__proto__\<close>, and whose amounts are such that every sum of some of them
  is itself a double (so that no addition rounds), the keys of \<^verbatim>\<open>categorySums\<close> are the
  categories of the table and the values of \<^verbatim>\<open>categorySums\<close>, added up in any order of the
  keys, give \<^verbatim>\<open>totalExpenses\<close>.
\<close>

theorem category_sums_add_up:
  fixes s :: "binary64 service"
  assumes "db s" and "faults s = []" and "expenses (disk s) = Some t"
  shows "(rows t = [] \<longrightarrow>
            (\<exists>stats. getExpenseStats strftime_ym s = (Inr stats, s) \<and> totalExpenses stats = 0))
       \<and> (rows t \<noteq> [] \<and> ''__proto__'' \<notin> category ` set (rows t)
            \<and> (\<forall>ys \<in> set (subseqs (map (\<lambda>r. value_of (amount r)) (rows t))).
                  representable (sum_list ys))
          \<longrightarrow> (\<exists>stats. getExpenseStats strftime_ym s = (Inr stats, s)
                 \<and> dom (categorySums stats) = category ` set (rows t)
                 \<and> (\<forall>ks. distinct ks \<and> set ks = dom (categorySums stats)
                        \<longrightarrow> sum_of_categories ks stats = totalExpenses stats)))"
proof (intro conjI impI)
  assume "rows t = []"
  then show "\<exists>stats. getExpenseStats strftime_ym s = (Inr stats, s) \<and> totalExpenses stats = 0"
    using getExpenseStats_no_fault [OF assms, of strftime_ym] by simp
next
  let ?v = "\<lambda>r. value_of (amount r)"
  let ?tot = "\<lambda>k. sum_list (map ?v (filter (\<lambda>r. category r = k) (rows t)))"
  assume hyp: "rows t \<noteq> [] \<and> ''__proto__'' \<notin> category ` set (rows t)
            \<and> (\<forall>ys \<in> set (subseqs (map ?v (rows t))). representable (sum_list ys))"
  then have exact: "exact_sums ?v (rows t)"
    by (intro exact_sums_from_subseqs) simp
  from hyp obtain r rs where rows: "rows t = r # rs"
    by (cases "rows t") auto
  define gs where "gs = order_by (\<lambda>a b. snd b \<le> snd a) (group_sums category amount (rows t))"
  define stats :: "binary64 ExpenseStats" where
    "stats = \<lparr>totalExpenses = foldl (+) (amount r) (map amount rs),
              categorySums = foldl assign Map.empty gs,
              monthlyData = take 12 (order_by month_desc
                 (group_sums (\<lambda>r. strftime_ym (date r)) amount (rows t)))\<rparr>"
  have run: "getExpenseStats strftime_ym s = (Inr stats, s)"
    using getExpenseStats_no_fault [OF assms, of strftime_ym]
    by (simp add: rows stats_def gs_def)
  \<comment> \<open>the total\<close>
  have "\<forall>j \<le> length (map ?v rs). representable (?v r + sum_list (take j (map ?v rs)))"
  proof (intro allI impI)
    fix j
    have "representable (sum_list (map ?v (filter (\<lambda>_. True) (take (Suc j) (rows t)))))"
      using exact unfolding exact_sums_def by blast
    then show "representable (?v r + sum_list (take j (map ?v rs)))"
      by (simp add: rows take_map)
  qed
  then have "foldl (+) (Binary64 (?v r)) (map Binary64 (map ?v rs))
               = Binary64 (?v r + sum_list (map ?v rs))"
    by (rule foldl_plus_exact)
  moreover have "map Binary64 (map ?v rs) = map amount rs"
    by (simp add: comp_def)
  moreover have "Binary64 (?v r) = amount r"
    by simp
  ultimately have "foldl (+) (amount r) (map amount rs) = Binary64 (?v r + sum_list (map ?v rs))"
    by (simp only:)
  then have total: "totalExpenses stats = Binary64 (sum_list (map ?v (rows t)))"
    by (simp add: stats_def rows)
  \<comment> \<open>the object\<close>
  have groups: "map_of (group_sums category amount (rows t)) =
           (\<lambda>k. if k \<in> category ` set (rows t) then Some (Binary64 (?tot k)) else None)"
    using exact by (rule group_sums_exact)
  have perm: "mset gs = mset (group_sums category amount (rows t))"
    by (simp add: gs_def mset_order_by)
  then have same_set: "set gs = set (group_sums category amount (rows t))"
    by (metis set_mset_mset)
  have "mset (map fst gs) = mset (map fst (group_sums category amount (rows t)))"
    using perm by (metis mset_map)
  then have dist: "distinct (map fst gs)"
    using distinct_group_sums [of category amount "rows t"] by (metis mset_eq_imp_distinct_iff)
  have keys: "fst ` set gs = category ` set (rows t)"
  proof -
    have "fst ` set gs = dom (map_of (group_sums category amount (rows t)))"
      by (simp add: same_set dom_map_of_conv_image_fst)
    also have "\<dots> = category ` set (rows t)"
      by (auto simp: groups dom_def)
    finally show ?thesis .
  qed
  have "categorySums stats = map_of (rev gs)"
    using hyp keys by (simp add: stats_def foldl_assign)
  also have "map_of (rev gs) = map_of (group_sums category amount (rows t))"
    using dist distinct_group_sums [of category amount "rows t"] same_set
    by (subst map_of_inject_set) (simp_all add: rev_map [symmetric])
  finally have object: "categorySums stats =
           (\<lambda>k. if k \<in> category ` set (rows t) then Some (Binary64 (?tot k)) else None)"
    using groups by simp
  then have dom: "dom (categorySums stats) = category ` set (rows t)"
    by (auto simp: dom_def)
  \<comment> \<open>the caller's sum\<close>
  have sums: "sum_of_categories ks stats = totalExpenses stats"
    if ks: "distinct ks \<and> set ks = dom (categorySums stats)" for ks
  proof -
    from ks dom have set_ks: "set ks = category ` set (rows t)" by simp
    have vals: "map (\<lambda>k. case categorySums stats k of Some v \<Rightarrow> v | None \<Rightarrow> 0) ks
                    = map Binary64 (map ?tot ks)"
      using set_ks by (auto simp: object)
    have "\<forall>j \<le> length (map ?tot ks). representable (0 + sum_list (take j (map ?tot ks)))"
    proof (intro allI impI)
      fix j
      have "distinct (take j ks)" using ks by (simp add: distinct_take)
      then have "sum_list (map ?tot (take j ks))
                   = sum_list (map ?v (filter (\<lambda>r. category r \<in> set (take j ks)) (rows t)))"
        by (rule sum_of_totals)
      moreover have "representable (sum_list (map ?v (filter (\<lambda>r. category r \<in> set (take j ks)) (rows t))))"
        using exact by (rule exact_sums_all)
      ultimately show "representable (0 + sum_list (take j (map ?tot ks)))"
        by (simp add: take_map)
    qed
    then have "foldl (+) (Binary64 0) (map Binary64 (map ?tot ks))
                 = Binary64 (0 + sum_list (map ?tot ks))"
      by (rule foldl_plus_exact)
    moreover have "sum_list (map ?tot ks)
                     = sum_list (map ?v (filter (\<lambda>r. category r \<in> set ks) (rows t)))"
      using ks by (intro sum_of_totals) simp
    moreover have "filter (\<lambda>r. category r \<in> set ks) (rows t) = rows t"
      using set_ks by (simp add: filter_True)
    ultimately show ?thesis
      by (simp add: sum_of_categories_def vals total zero_binary64_def)
  qed
  from run dom sums show "\<exists>stats. getExpenseStats strftime_ym s = (Inr stats, s)
                 \<and> dom (categorySums stats) = category ` set (rows t)
                 \<and> (\<forall>ks. distinct ks \<and> set ks = dom (categorySums stats)
                        \<longrightarrow> sum_of_categories ks stats = totalExpenses stats)"
    by blast
qed

theorem category_sums_add_up_witness:
  "db exact_ledger \<and> faults exact_ledger = []
   \<and> (\<exists>stats. getExpenseStats year_month exact_ledger = (Inr stats, exact_ledger)
         \<and> totalExpenses stats = Binary64 (675 / 4)
         \<and> sum_of_categories [''Food'', ''Transportation'', ''Entertainment''] stats
             = totalExpenses stats
         \<and> sum_of_categories [''Entertainment'', ''Food'', ''Transportation''] stats
             = totalExpenses stats)
   \<and> (\<exists>stats. getExpenseStats year_month (ledger []) = (Inr stats, ledger [])
         \<and> totalExpenses stats = 0)"
proof -
  define paid where "paid =
     [entry 1 ''Food'' (Binary64 (171 / 2)), entry 2 ''Transportation'' (Binary64 45),
      entry 3 ''Entertainment'' (Binary64 28), entry 4 ''Food'' (Binary64 (41 / 4))]"
  have ledger: "exact_ledger = ledger paid"
    by (simp add: exact_ledger_def paid_def)
  have filled: "rows \<lparr>created_at_col = Default_now, rows = paid\<rparr> \<noteq> []"
    by (simp add: paid_def)
  have named: "''__proto__'' \<notin> category ` set (rows \<lparr>created_at_col = Default_now, rows = paid\<rparr>)"
    by (simp add: paid_def entry_def)
  have exact: "\<forall>ys \<in> set (subseqs (map (\<lambda>r. value_of (amount r))
                   (rows \<lparr>created_at_col = Default_now, rows = paid\<rparr>))).
                 representable (sum_list ys)"
    by (simp add: paid_def entry_def;
        intro conjI representable_grid [where k = 2];
        simp add: least_exponent_def)
  have cats: "category ` set (rows \<lparr>created_at_col = Default_now, rows = paid\<rparr>)
                = {''Food'', ''Transportation'', ''Entertainment''}"
    by (auto simp: paid_def entry_def)
  have main: "\<exists>stats. getExpenseStats year_month (ledger paid) = (Inr stats, ledger paid)
      \<and> dom (categorySums stats)
            = category ` set (rows \<lparr>created_at_col = Default_now, rows = paid\<rparr>)
      \<and> (\<forall>ks. distinct ks \<and> set ks = dom (categorySums stats)
              \<longrightarrow> sum_of_categories ks stats = totalExpenses stats)"
    by (rule category_sums_add_up [OF ledger_facts, of paid year_month, THEN conjunct2, THEN mp])
      (intro conjI filled named exact)
  then obtain stats where run: "getExpenseStats year_month (ledger paid) = (Inr stats, ledger paid)"
    and dom: "dom (categorySums stats)
                = category ` set (rows \<lparr>created_at_col = Default_now, rows = paid\<rparr>)"
    and all: "\<forall>ks. distinct ks \<and> set ks = dom (categorySums stats)
                 \<longrightarrow> sum_of_categories ks stats = totalExpenses stats"
    by (elim exE conjE)
  have keys: "dom (categorySums stats) = {''Food'', ''Transportation'', ''Entertainment''}"
    by (simp only: dom cats)
  have sums: "sum_of_categories ks stats = totalExpenses stats"
    if "distinct ks" "set ks = dom (categorySums stats)" for ks
    using all that by simp
  have grid: "representable (171 / 2 + 45)" "representable (261 / 2 + 28)"
    "representable (317 / 2 + 41 / 4)"
    by (rule representable_grid [where k = 2]; simp add: least_exponent_def)+
  have added: "Binary64 (171 / 2) + Binary64 45 = Binary64 (261 / 2)"
    "Binary64 (261 / 2) + Binary64 28 = Binary64 (317 / 2)"
    "Binary64 (317 / 2) + Binary64 (41 / 4) = Binary64 (675 / 4)"
    using grid by (simp_all add: plus_exact)
  have total: "totalExpenses stats = Binary64 (675 / 4)"
    using getExpenseStats_total [OF ledger_facts run]
    by (simp add: paid_def entry_def added)
  have first: "sum_of_categories [''Food'', ''Transportation'', ''Entertainment''] stats
                 = totalExpenses stats"
    by (rule sums) (auto simp: keys)
  have second: "sum_of_categories [''Entertainment'', ''Food'', ''Transportation''] stats
                 = totalExpenses stats"
    by (rule sums) (auto simp: keys)
  have full: "\<exists>stats. getExpenseStats year_month exact_ledger = (Inr stats, exact_ledger)
         \<and> totalExpenses stats = Binary64 (675 / 4)
         \<and> sum_of_categories [''Food'', ''Transportation'', ''Entertainment''] stats
             = totalExpenses stats
         \<and> sum_of_categories [''Entertainment'', ''Food'', ''Transportation''] stats
             = totalExpenses stats"
    using run total first second unfolding ledger by (intro exI [of _ stats] conjI)
  have none: "rows \<lparr>created_at_col = Default_now, rows = ([] :: binary64 expense list)\<rparr> = []"
    by simp
  from category_sums_add_up [OF ledger_facts, of "[]" year_month, THEN conjunct1, rule_format, OF none]
  have empty: "\<exists>stats. getExpenseStats year_month (ledger []) = (Inr stats, ledger [])
         \<and> totalExpenses stats = 0" .
  show ?thesis
    using ledger_facts(1,2) [of paid] full empty unfolding ledger by (intro conjI)
qed

text \<open>
  Claim C4 as stated fails in two ways. The engine adds the amounts in the order of the
  rows for the total and per category for the sums, and every addition of doubles rounds:
  for the amounts \<open>0.1\<close> and \<open>1.1\<close> in one category and \<open>0.1\<close> in another, the sums of the
  two categories add up, in either order, to a double one unit in the last place above
  the total. And a category named \<^verbatim>\<open>__proto__\<close> never becomes a key of the object that
  \<^verbatim>\<open>categorySums\<close> is, so its sum is part of the total and of no category.
\<close>

theorem category_sums_add_up_counterexample:
  "map_sum id totalExpenses (fst (getExpenseStats year_month rounding_ledger))
     = Inr (Binary64 (5854679515581645 / 4503599627370496))
   \<and> map_sum id (sum_of_categories [''A'', ''B''])
        (fst (getExpenseStats year_month rounding_ledger))
     = Inr (Binary64 (2927339757790823 / 2251799813685248))
   \<and> map_sum id (sum_of_categories [''B'', ''A''])
        (fst (getExpenseStats year_month rounding_ledger))
     = Inr (Binary64 (2927339757790823 / 2251799813685248))
   \<and> map_sum id totalExpenses (fst (getExpenseStats year_month proto_ledger))
     = Inr (Binary64 12)
   \<and> map_sum id (sum_of_categories [''__proto__'', ''Food''])
        (fst (getExpenseStats year_month proto_ledger))
     = Inr (Binary64 7)"
proof -
  note run = getExpenseStats_no_fault [OF ledger_facts, of year_month]
  have groups: "group_sums category amount
       [entry 1 ''A'' tenth, entry 2 ''B'' tenth, entry 3 ''A'' eleven_tenths]
       = [(''A'', tenth + eleven_tenths), (''B'', tenth)]"
    by (simp add: group_sums_def entry_def)
  have order: "tenth \<le> tenth + eleven_tenths" "\<not> tenth + eleven_tenths \<le> tenth"
    by (simp_all add: tenth_def eleven_tenths_def double_eval)
  have object: "foldl assign Map.empty
       (order_by (\<lambda>a b. snd b \<le> snd a) [(''A'', tenth + eleven_tenths), (''B'', tenth)])
       = [''A'' \<mapsto> tenth + eleven_tenths, ''B'' \<mapsto> tenth]"
    by (simp add: order_by_def order assign_def)
  have total: "map_sum id totalExpenses (fst (getExpenseStats year_month rounding_ledger))
     = Inr (Binary64 (5854679515581645 / 4503599627370496))"
    by (simp add: run rounding_ledger_def entry_def rounding_sums(1))
  have ab: "map_sum id (sum_of_categories [''A'', ''B''])
        (fst (getExpenseStats year_month rounding_ledger))
     = Inr (Binary64 (2927339757790823 / 2251799813685248))"
    by (simp add: run rounding_ledger_def groups object sum_of_categories_def rounding_sums(3))
  have ba: "map_sum id (sum_of_categories [''B'', ''A''])
        (fst (getExpenseStats year_month rounding_ledger))
     = Inr (Binary64 (2927339757790823 / 2251799813685248))"
    by (simp add: run rounding_ledger_def groups object sum_of_categories_def rounding_sums(4))
  have five_seven: "Binary64 5 + Binary64 7 = Binary64 12" "0 + Binary64 7 = Binary64 7"
    "0 + 0 + Binary64 7 = Binary64 7" "Binary64 5 \<le> Binary64 7" "\<not> Binary64 7 \<le> Binary64 5"
    by (simp_all add: double_eval)
  have proto_groups: "group_sums category amount
       [entry 1 ''__proto__'' (Binary64 5), entry 2 ''Food'' (Binary64 7)]
       = [(''__proto__'', Binary64 5), (''Food'', Binary64 7)]"
    by (simp add: group_sums_def entry_def)
  have proto_object: "foldl assign Map.empty
       (order_by (\<lambda>a b. snd b \<le> snd a) [(''__proto__'', Binary64 5), (''Food'', Binary64 7)])
       = [''Food'' \<mapsto> Binary64 7]"
    by (simp add: order_by_def five_seven assign_def)
  have proto_total: "map_sum id totalExpenses (fst (getExpenseStats year_month proto_ledger))
     = Inr (Binary64 12)"
    by (simp add: run proto_ledger_def entry_def five_seven)
  have proto_sum: "map_sum id (sum_of_categories [''__proto__'', ''Food''])
        (fst (getExpenseStats year_month proto_ledger))
     = Inr (Binary64 7)"
    by (simp add: run proto_ledger_def proto_groups proto_object sum_of_categories_def five_seven)
  from total ab ba proto_total proto_sum show ?thesis by (intro conjI)
qed

end
